theory Spec2Isabelle
  imports Main
begin

section \<open>JavaScript values used by the handlers\<close>

text \<open>
  Strings are lists of code units, those below 256 that the type \<open>char\<close> holds
  (\<open>String.length\<close> is the list length). Numbers are taken as integers; no handler
  computes with them. Objects that arrive as JSON are association lists, a key being
  looked up with \<open>map_of\<close>; a missing key reads as \<open>undefined\<close>, which is \<open>None\<close>
  throughout.
\<close>

datatype json =
    JNull
  | JBool bool
  | JNum int
  | JStr string
  | JArr "json list"
  | JObj "(string \<times> json) list"

definition startsWith :: "string \<Rightarrow> string \<Rightarrow> bool" where
  "startsWith s p = (take (length p) s = p)"

fun str_includes :: "string \<Rightarrow> string \<Rightarrow> bool" where
  "str_includes [] p = (p = [])"
| "str_includes (c # cs) p = (startsWith (c # cs) p \<or> str_includes cs p)"

definition isWhiteSpace :: "char \<Rightarrow> bool" where
  "isWhiteSpace c = (c \<in> set [CHR 0x09, CHR 0x0A, CHR 0x0B, CHR 0x0C, CHR 0x0D, CHR 0x20, CHR 0xA0])"

definition trim :: "string \<Rightarrow> string" where
  "trim s = rev (dropWhile isWhiteSpace (rev (dropWhile isWhiteSpace s)))"

text \<open>JavaScript truthiness of a value read from a JSON object (\<open>None\<close> is \<open>undefined\<close>).\<close>

fun truthy :: "json option \<Rightarrow> bool" where
  "truthy None = False"
| "truthy (Some JNull) = False"
| "truthy (Some (JBool b)) = b"
| "truthy (Some (JNum n)) = (n \<noteq> 0)"
| "truthy (Some (JStr s)) = (s \<noteq> [])"
| "truthy (Some (JArr xs)) = True"
| "truthy (Some (JObj kvs)) = True"

section \<open>Zod schemas\<close>

text \<open>
  The schema combinators the repository uses: \<open>z.string()\<close> with an optional
  \<open>.max(n)\<close>, \<open>z.number()\<close>, \<open>z.enum\<close>, \<open>z.array\<close> with an optional \<open>.max(n)\<close>,
  \<open>z.object\<close> (unknown keys are stripped, not rejected), \<open>.optional()\<close> and
  \<open>z.union\<close> (the first option that accepts wins). \<open>safeParse\<close> returns \<open>Invalid\<close>
  for \<open>success: false\<close> and \<open>Valid data\<close> for \<open>success: true\<close>.
\<close>

datatype schema =
    ZString "nat option"
  | ZNumber
  | ZEnum "string list"
  | ZArray schema "nat option"
  | ZObject "(string \<times> schema) list"
  | ZOptional schema
  | ZUnion "schema list"

datatype parsed = Invalid | Valid "json option"

fun safeParse :: "schema \<Rightarrow> json option \<Rightarrow> parsed"
and parse_items :: "schema \<Rightarrow> json list \<Rightarrow> json list option"
and parse_shape :: "(string \<times> schema) list \<Rightarrow> (string \<times> json) list \<Rightarrow> (string \<times> json) list option"
and parse_union :: "schema list \<Rightarrow> json option \<Rightarrow> parsed"
where
  "safeParse (ZString mx) v =
     (case v of
        Some (JStr s) \<Rightarrow>
          (case mx of None \<Rightarrow> Valid v | Some n \<Rightarrow> if length s \<le> n then Valid v else Invalid)
      | _ \<Rightarrow> Invalid)"
| "safeParse ZNumber v = (case v of Some (JNum n) \<Rightarrow> Valid v | _ \<Rightarrow> Invalid)"
| "safeParse (ZEnum vs) v =
     (case v of Some (JStr s) \<Rightarrow> if s \<in> set vs then Valid v else Invalid | _ \<Rightarrow> Invalid)"
| "safeParse (ZArray s mx) v =
     (case v of
        Some (JArr xs) \<Rightarrow>
          (if (case mx of None \<Rightarrow> False | Some n \<Rightarrow> n < length xs) then Invalid
           else (case parse_items s xs of None \<Rightarrow> Invalid | Some ys \<Rightarrow> Valid (Some (JArr ys))))
      | _ \<Rightarrow> Invalid)"
| "safeParse (ZObject shape) v =
     (case v of
        Some (JObj kvs) \<Rightarrow>
          (case parse_shape shape kvs of None \<Rightarrow> Invalid | Some out \<Rightarrow> Valid (Some (JObj out)))
      | _ \<Rightarrow> Invalid)"
| "safeParse (ZOptional s) v = (case v of None \<Rightarrow> Valid None | Some x \<Rightarrow> safeParse s v)"
| "safeParse (ZUnion opts) v = parse_union opts v"
| "parse_items s [] = Some []"
| "parse_items s (x # xs) =
     (case safeParse s (Some x) of
        Valid (Some y) \<Rightarrow> (case parse_items s xs of None \<Rightarrow> None | Some ys \<Rightarrow> Some (y # ys))
      | _ \<Rightarrow> None)"
| "parse_shape [] kvs = Some []"
| "parse_shape ((k, s) # shape) kvs =
     (case safeParse s (map_of kvs k) of
        Invalid \<Rightarrow> None
      | Valid r \<Rightarrow>
          (case parse_shape shape kvs of
             None \<Rightarrow> None
           | Some out \<Rightarrow> Some (case r of None \<Rightarrow> out | Some y \<Rightarrow> (k, y) # out)))"
| "parse_union [] v = Invalid"
| "parse_union (s # opts) v =
     (case safeParse s v of Valid r \<Rightarrow> Valid r | Invalid \<Rightarrow> parse_union opts v)"

section \<open>The chat endpoint: \<open>src/app/api/chat/route.ts\<close>\<close>

subsection \<open>\<open>getOpenRouterFriendlyError\<close>\<close>

text \<open>
  The argument is \<open>unknown\<close>: an object (an \<open>Error\<close> instance or not) whose
  \<open>statusCode\<close> and \<open>responseBody\<close> may hold anything, a string, or any other value
  (\<open>null\<close>, \<open>undefined\<close>, a number, ...). \<open>errorMessage\<close> is \<open>Some m\<close> exactly for
  an instance of \<open>Error\<close> with \<open>message\<close> \<open>m\<close>.
\<close>

datatype jsval = VUndefined | VNull | VBool bool | VNum int | VStr string

datatype thrown =
    ThrownObject (statusCode: jsval) (responseBody: jsval) (errorMessage: "string option")
  | ThrownString string
  | ThrownOther

definition authFailedMessage :: string where
  "authFailedMessage =
     ''OpenRouter authentication failed (401).'' @ '' '' @
     ''Check your OPENROUTER_API_KEY in .env (it should start with 'sk-or-v1-'), then restart the dev server.''"

definition rateLimitMessage :: string where
  "rateLimitMessage = ''OpenRouter rate limit hit (429). Please wait a bit and try again.''"

definition unknownErrorMessage :: string where
  "unknownErrorMessage = ''Unknown AI error.''"

definition userNotFoundNeedle :: string where
  "userNotFoundNeedle = CHR 0x22 # ''User not found'' @ [CHR 0x22]"

definition getOpenRouterFriendlyError :: "thrown \<Rightarrow> string" where
  "getOpenRouterFriendlyError error =
     (let statusCode = (case error of ThrownObject sc rb em \<Rightarrow> sc | _ \<Rightarrow> VUndefined);
          responseBody = (case error of ThrownObject sc (VStr b) em \<Rightarrow> Some b | _ \<Rightarrow> None)
      in if statusCode = VNum 401
            \<or> (case responseBody of None \<Rightarrow> False | Some b \<Rightarrow> str_includes b userNotFoundNeedle)
         then authFailedMessage
         else if statusCode = VNum 429 then rateLimitMessage
         else (case error of
                 ThrownObject sc rb (Some m) \<Rightarrow> m
               | ThrownString s \<Rightarrow> s
               | _ \<Rightarrow> unknownErrorMessage))"

subsection \<open>Request schema\<close>

definition messagePartSchema :: schema where
  "messagePartSchema =
     ZObject [(''type'', ZString None), (''text'', ZOptional (ZString (Some 10000)))]"

definition messageSchema :: schema where
  "messageSchema =
     ZObject
       [(''id'', ZOptional (ZString None)),
        (''role'', ZEnum [''user'', ''assistant'', ''system'']),
        (''parts'', ZOptional (ZArray messagePartSchema None)),
        (''content'', ZOptional (ZUnion [ZString None, ZArray messagePartSchema None]))]"

definition chatRequestSchema :: schema where
  "chatRequestSchema = ZObject [(''messages'', ZArray messageSchema (Some 100))]"

subsection \<open>\<open>POST\<close>\<close>

text \<open>
  What the handler reads from outside: the session lookup, the body (\<open>req.json()\<close>
  throws on text that is not JSON: \<open>None\<close>), two environment variables, Zod's
  rendering of a failed parse (\<open>parsed.error.flatten().fieldErrors\<close>), the library's
  \<open>convertToModelMessages\<close> (which may throw: \<open>Inl\<close>), and the provider behind
  \<open>streamText\<close>, which is given the API key, the model id and the converted messages
  and yields text and errors. Nothing in the handler catches an exception of
  \<open>convertToModelMessages\<close>: it leaves the handler (\<open>Unhandled\<close>).
  The handler's result is the response together with the external calls it made, in
  order; \<open>ProviderStreamText\<close> is the call of \<open>streamText\<close>, the only place where
  the provider is reached.
\<close>

datatype stream_part = PartText string | PartError thrown

datatype ui_chunk = UIText string | UIError string

datatype response =
    JsonResponse (status: nat) (body: json)
  | StreamResponse "ui_chunk list"
  | Unhandled thrown

datatype effect = AuthGetSession | ReqJson | SchemaSafeParse | ProviderStreamText

record request_env =
  getSession :: "string option"
  req_json :: "json option"
  OPENROUTER_API_KEY :: "string option"
  OPENROUTER_MODEL :: "string option"
  fieldErrors :: "json \<Rightarrow> json"
  convertToModelMessages :: "json option \<Rightarrow> thrown + json"
  streamText :: "string \<Rightarrow> string \<Rightarrow> json \<Rightarrow> stream_part list"

definition errorResponse :: "nat \<Rightarrow> string \<Rightarrow> response" where
  "errorResponse st msg = JsonResponse st (JObj [(''error'', JStr msg)])"

definition missingKeyMessage :: string where
  "missingKeyMessage = ''OpenRouter API key not configured. Set OPENROUTER_API_KEY in .env''"

definition invalidKeyMessage :: string where
  "invalidKeyMessage =
     ''Invalid OPENROUTER_API_KEY. Paste a real OpenRouter key (starts with 'sk-or-v1-') into your .env and restart the dev server.''"

fun toUIChunk :: "stream_part \<Rightarrow> ui_chunk" where
  "toUIChunk (PartText t) = UIText t"
| "toUIChunk (PartError e) = UIError (getOpenRouterFriendlyError e)"

definition messagesOf :: "json option \<Rightarrow> json option" where
  "messagesOf d = (case d of Some (JObj kvs) \<Rightarrow> map_of kvs ''messages'' | _ \<Rightarrow> None)"

definition modelId :: "request_env \<Rightarrow> string" where
  "modelId e =
     (case OPENROUTER_MODEL e of
        None \<Rightarrow> ''openai/gpt-5-mini''
      | Some m \<Rightarrow> if m = [] then ''openai/gpt-5-mini'' else m)"

definition POST :: "request_env \<Rightarrow> response \<times> effect list" where
  "POST e =
     (case getSession e of
        None \<Rightarrow> (errorResponse 401 ''Unauthorized'', [AuthGetSession])
      | Some session \<Rightarrow>
     (case req_json e of
        None \<Rightarrow> (errorResponse 400 ''Invalid JSON'', [AuthGetSession, ReqJson])
      | Some b \<Rightarrow>
     (case safeParse chatRequestSchema (Some b) of
        Invalid \<Rightarrow>
          (JsonResponse 400 (JObj [(''error'', JStr ''Invalid request''), (''details'', fieldErrors e b)]),
           [AuthGetSession, ReqJson, SchemaSafeParse])
      | Valid d \<Rightarrow>
     (case map_option trim (OPENROUTER_API_KEY e) of
        None \<Rightarrow> (errorResponse 500 missingKeyMessage, [AuthGetSession, ReqJson, SchemaSafeParse])
      | Some apiKey \<Rightarrow>
          if apiKey = [] then
            (errorResponse 500 missingKeyMessage, [AuthGetSession, ReqJson, SchemaSafeParse])
          else if \<not> startsWith apiKey ''sk-or-v1-'' \<or> str_includes apiKey ''your-key'' then
            (errorResponse 500 invalidKeyMessage, [AuthGetSession, ReqJson, SchemaSafeParse])
          else
            (case convertToModelMessages e (messagesOf d) of
               Inl err \<Rightarrow> (Unhandled err, [AuthGetSession, ReqJson, SchemaSafeParse])
             | Inr modelMessages \<Rightarrow>
                 (StreamResponse (map toUIChunk (streamText e apiKey (modelId e) modelMessages)),
                  [AuthGetSession, ReqJson, SchemaSafeParse, ProviderStreamText]))))))"

subsection \<open>Requests, as the schema types them\<close>

text \<open>
  The bounds of the request validation, read off a JSON body: the messages of the body,
  the parts of a message (those under \<open>parts\<close> and those of an array \<open>content\<close>),
  and a part whose \<open>text\<close> is a string longer than 10000.
  Beside them, the type \<open>z.infer\<close> gives the schema (\<open>chat_message\<close>), with its
  encoding as JSON: the requests that are well formed apart from the two bounds.
\<close>

definition requestMessages :: "json \<Rightarrow> json list option" where
  "requestMessages b =
     (case b of JObj kvs \<Rightarrow> (case map_of kvs ''messages'' of Some (JArr ms) \<Rightarrow> Some ms | _ \<Rightarrow> None)
      | _ \<Rightarrow> None)"

definition partsOf :: "json \<Rightarrow> json list" where
  "partsOf m =
     (case m of
        JObj kvs \<Rightarrow>
          (case map_of kvs ''parts'' of Some (JArr ps) \<Rightarrow> ps | _ \<Rightarrow> []) @
          (case map_of kvs ''content'' of Some (JArr ps) \<Rightarrow> ps | _ \<Rightarrow> [])
      | _ \<Rightarrow> [])"

definition textTooLong :: "json \<Rightarrow> bool" where
  "textTooLong p =
     (case p of
        JObj kvs \<Rightarrow> (case map_of kvs ''text'' of Some (JStr t) \<Rightarrow> 10000 < length t | _ \<Rightarrow> False)
      | _ \<Rightarrow> False)"

definition exceedsBounds :: "json \<Rightarrow> bool" where
  "exceedsBounds b =
     (case requestMessages b of
        None \<Rightarrow> False
      | Some ms \<Rightarrow> 100 < length ms \<or> list_ex (\<lambda>m. list_ex textTooLong (partsOf m)) ms)"

datatype role = User | Assistant | System

record message_part =
  part_type :: string
  part_text :: "string option"

datatype message_content = ContentString string | ContentParts "message_part list"

record chat_message =
  msg_id :: "string option"
  msg_role :: role
  msg_parts :: "message_part list option"
  msg_content :: "message_content option"

fun roleName :: "role \<Rightarrow> string" where
  "roleName User = ''user''"
| "roleName Assistant = ''assistant''"
| "roleName System = ''system''"

definition encodePart :: "message_part \<Rightarrow> json" where
  "encodePart p =
     JObj ((''type'', JStr (part_type p)) #
           (case part_text p of None \<Rightarrow> [] | Some t \<Rightarrow> [(''text'', JStr t)]))"

definition encodeMessage :: "chat_message \<Rightarrow> json" where
  "encodeMessage m =
     JObj ((case msg_id m of None \<Rightarrow> [] | Some i \<Rightarrow> [(''id'', JStr i)]) @
           [(''role'', JStr (roleName (msg_role m)))] @
           (case msg_parts m of None \<Rightarrow> [] | Some ps \<Rightarrow> [(''parts'', JArr (map encodePart ps))]) @
           (case msg_content m of
              None \<Rightarrow> []
            | Some (ContentString s) \<Rightarrow> [(''content'', JStr s)]
            | Some (ContentParts ps) \<Rightarrow> [(''content'', JArr (map encodePart ps))]))"

definition encodeRequest :: "chat_message list \<Rightarrow> json" where
  "encodeRequest ms = JObj [(''messages'', JArr (map encodeMessage ms))]"

definition partWithinBound :: "message_part \<Rightarrow> bool" where
  "partWithinBound p = (case part_text p of None \<Rightarrow> True | Some t \<Rightarrow> length t \<le> 10000)"

definition messageParts :: "chat_message \<Rightarrow> message_part list" where
  "messageParts m =
     (case msg_parts m of None \<Rightarrow> [] | Some ps \<Rightarrow> ps) @
     (case msg_content m of Some (ContentParts ps) \<Rightarrow> ps | _ \<Rightarrow> [])"

definition withinBounds :: "chat_message list \<Rightarrow> bool" where
  "withinBounds ms = (length ms \<le> 100 \<and> list_all (\<lambda>m. list_all partWithinBound (messageParts m)) ms)"

subsection \<open>Sample inputs\<close>

definition exampleEnv :: "string option \<Rightarrow> json option \<Rightarrow> string option \<Rightarrow> request_env" where
  "exampleEnv sess b key =
     \<lparr> getSession = sess, req_json = b, OPENROUTER_API_KEY = key, OPENROUTER_MODEL = None,
       fieldErrors = (\<lambda>_. JObj []),
       convertToModelMessages = (\<lambda>msgs. case msgs of None \<Rightarrow> Inl ThrownOther | Some ms \<Rightarrow> Inr ms),
       streamText = (\<lambda>k m msgs. [PartText ''Hello'', PartError (ThrownObject (VNum 401) VUndefined (Some ''User not found.''))]) \<rparr>"

definition tooManyMessages :: json where
  "tooManyMessages = JObj [(''messages'', JArr (replicate 101 (JObj [(''role'', JStr ''user'')])))]"

definition helloMessage :: chat_message where
  "helloMessage =
     \<lparr> msg_id = None, msg_role = User,
       msg_parts = Some [\<lparr> part_type = ''text'', part_text = Some ''what deals do you have?'' \<rparr>],
       msg_content = None \<rparr>"

definition longContentRequest :: json where
  "longContentRequest =
     JObj [(''messages'', JArr [JObj [(''role'', JStr ''user''), (''content'', JStr (replicate 10001 CHR ''a''))]])]"

definition rawUpstreamBody :: string where
  \<open>rawUpstreamBody = ''{"error":{"message":"upstream worker crashed","code":500}}''\<close>


definition quotedUserNotFoundBody :: string where
  \<open>quotedUserNotFoundBody = ''{"error":{"message":"User not found","code":401}}''\<close>

definition fullStopUserNotFoundBody :: string where
  \<open>fullStopUserNotFoundBody = ''{"error":{"message":"User not found.","code":401}}''\<close>

definition curatedMessages :: "string set" where
  "curatedMessages = {authFailedMessage, rateLimitMessage, unknownErrorMessage}"

definition bodySaysUserNotFound :: "thrown \<Rightarrow> bool" where
  "bodySaysUserNotFound err =
     (case err of ThrownObject sc (VStr b) em \<Rightarrow> str_includes b userNotFoundNeedle | _ \<Rightarrow> False)"

definition ownMessage :: "thrown \<Rightarrow> string option" where
  "ownMessage err = (case err of ThrownObject sc rb em \<Rightarrow> em | ThrownString s \<Rightarrow> Some s | ThrownOther \<Rightarrow> None)"

definition statusOf :: "thrown \<Rightarrow> jsval" where
  "statusOf err = (case err of ThrownObject sc rb em \<Rightarrow> sc | _ \<Rightarrow> VUndefined)"

section \<open>The Digital Twin chat handler: \<open>docs/technical/ai/streaming.md\<close>\<close>

subsection \<open>The persistence collaborator\<close>

text \<open>
  The tables the handler reads, with the columns it uses. The table declarations are not
  part of the sources; text and numeric columns are taken as strings, as the driver
  returns them, and JSON columns as \<open>json option\<close> (\<open>None\<close> for \<open>null\<close>).
  A query takes the database and returns its rows together with the database after it.
\<close>

record card_row =
  card_id :: string
  businessName :: string
  industryType :: string
  description :: string
  address :: "json option"

record twin_row =
  twin_cardId :: string
  personalityTraits :: "json option"

record product_row =
  product_cardId :: string
  product_name :: string
  price :: string
  product_description :: string
  category :: "string option"

record promotion_row =
  promotion_cardId :: string
  promotionType :: string
  discountValue :: string
  conditions :: string
  endDate :: string

record database =
  cards :: "card_row list"
  cardDigitalTwins :: "twin_row list"
  products :: "product_row list"
  promotions :: "promotion_row list"

datatype table = Cards | CardDigitalTwins | Products | Promotions

datatype statement = Select table | Insert table | Update table | Delete table

datatype io = Db statement | StreamTextCall

definition db_select ::
  "(database \<Rightarrow> 'r list) \<Rightarrow> ('r \<Rightarrow> bool) \<Rightarrow> nat option \<Rightarrow> database \<Rightarrow> 'r list \<times> database" where
  "db_select from_table wh lim db =
     ((case lim of None \<Rightarrow> filter wh (from_table db) | Some n \<Rightarrow> take n (filter wh (from_table db))), db)"

text \<open>\<open>const [x] = rows\<close>: the first row, or \<open>undefined\<close>.\<close>

definition firstRow :: "'r list \<Rightarrow> 'r option" where
  "firstRow rows = (case rows of [] \<Rightarrow> None | r # _ \<Rightarrow> Some r)"

subsection \<open>Loading the context and building the system prompt\<close>

datatype js_error = TypeError string

definition undefinedBusinessName :: string where
  "undefinedBusinessName = ''Cannot read properties of undefined (reading 'businessName')''"

record context_bundle =
  card :: card_row
  twin :: "twin_row option"
  businessProducts :: "product_row list"
  activeOffers :: "promotion_row list"
  systemPrompt :: string

fun join :: "string \<Rightarrow> string list \<Rightarrow> string" where
  "join sep [] = []"
| "join sep [x] = x"
| "join sep (x # y # ys) = x @ sep @ join sep (y # ys)"

definition newline :: string where
  "newline = [CHR 0x0A]"

definition productLine :: "product_row \<Rightarrow> string" where
  "productLine p = ''- '' @ product_name p @ '': $'' @ price p @ '' - '' @ product_description p"

definition offerLine :: "promotion_row \<Rightarrow> string" where
  "offerLine offer = ''- '' @ promotionType offer @ '': '' @ discountValue offer @ ''% off''"

definition buildSystemPrompt ::
  "(json \<Rightarrow> string) \<Rightarrow> card_row \<Rightarrow> twin_row option \<Rightarrow> product_row list \<Rightarrow> promotion_row list \<Rightarrow> string" where
  "buildSystemPrompt stringify c t ps os =
     ''You are the Digital Twin AI for '' @ [CHR 0x22] @ businessName c @ [CHR 0x22] @ ''.'' @ newline @
     newline @
     ''PERSONALITY:'' @ newline @
     (case (case t of None \<Rightarrow> None | Some tw \<Rightarrow> personalityTraits tw) of
        None \<Rightarrow> ''Friendly and helpful''
      | Some traits \<Rightarrow> if truthy (Some traits) then stringify traits else ''Friendly and helpful'') @ newline @
     newline @
     ''BUSINESS INFO:'' @ newline @
     ''- Industry: '' @ industryType c @ newline @
     ''- Description: '' @ description c @ newline @
     ''- Location: '' @
     (case address c of
        None \<Rightarrow> ''Not specified''
      | Some a \<Rightarrow> if truthy (Some a) then stringify a else ''Not specified'') @ newline @
     newline @
     ''PRODUCTS/SERVICES:'' @ newline @
     join newline (map productLine ps) @ newline @
     newline @
     ''CURRENT OFFERS:'' @ newline @
     join newline (map offerLine os) @ newline @
     newline @
     ''GUIDELINES:'' @ newline @
     ''- Be friendly and represent the business authentically'' @ newline @
     ''- Keep responses concise (under 150 words)'' @ newline @
     ''- Promote current offers when relevant'' @ newline @
     ''- If asked something you don't know, offer to connect them with the business owner'' @ newline @
     ''- Never make up information about products or prices''"

text \<open>
  Lines 81 to 129 of the handler: four queries, then the prompt. The prompt reads
  \<open>card.businessName\<close> first; with no card row that read throws.
\<close>

definition assemble ::
  "(json \<Rightarrow> string) \<Rightarrow> database \<Rightarrow> string \<Rightarrow> (js_error + context_bundle) \<times> database \<times> io list" where
  "assemble stringify db0 cardId =
     (let (cardRows, db1) = db_select cards (\<lambda>c. card_id c = cardId) (Some 1) db0;
          (twinRows, db2) = db_select cardDigitalTwins (\<lambda>t. twin_cardId t = cardId) (Some 1) db1;
          (businessProducts, db3) = db_select products (\<lambda>p. product_cardId p = cardId) None db2;
          (activeOffers, db4) = db_select promotions (\<lambda>p. promotion_cardId p = cardId) None db3;
          log = [Db (Select Cards), Db (Select CardDigitalTwins), Db (Select Products), Db (Select Promotions)]
      in case firstRow cardRows of
           None \<Rightarrow> (Inl (TypeError undefinedBusinessName), db4, log)
         | Some c \<Rightarrow>
             (Inr \<lparr> card = c, twin = firstRow twinRows, businessProducts = businessProducts,
                    activeOffers = activeOffers,
                    systemPrompt = buildSystemPrompt stringify c (firstRow twinRows) businessProducts activeOffers \<rparr>,
              db4, log))"

text \<open>
  The handler: the context, then \<open>streamText\<close> with the prompt, the messages and the
  tools. What the provider and the library stream back is a parameter.
\<close>

definition twinChatPOST ::
  "(json \<Rightarrow> string) \<Rightarrow> (context_bundle \<Rightarrow> json \<Rightarrow> ui_chunk list) \<Rightarrow> database \<Rightarrow> json \<Rightarrow> string
     \<Rightarrow> (js_error + response) \<times> database \<times> io list" where
  "twinChatPOST stringify stream db messages cardId =
     (case assemble stringify db cardId of
        (Inl err, db', log) \<Rightarrow> (Inl err, db', log)
      | (Inr ctx, db', log) \<Rightarrow> (Inr (StreamResponse (stream ctx messages)), db', log @ [StreamTextCall]))"

definition coastalBites :: database where
  "coastalBites =
     \<lparr> cards = [\<lparr> card_id = ''card-1'', businessName = ''Coastal Bites'', industryType = ''restaurant'',
                  description = ''Seafood by the beach'', address = None \<rparr>],
       cardDigitalTwins = [],
       products = [\<lparr> product_cardId = ''card-1'', product_name = ''Fish tacos'', price = ''12.50'',
                     product_description = ''Two tacos'', category = Some ''Mains'' \<rparr>],
       promotions = [\<lparr> promotion_cardId = ''card-1'', promotionType = ''percentage'', discountValue = ''20'',
                       conditions = ''Dine-in only'', endDate = ''2030-01-01'' \<rparr>] \<rparr>"


section \<open>The offer generator: \<open>docs/technical/ai/structured-data.md\<close>\<close>

definition offerSchema :: schema where
  "offerSchema =
     ZObject
       [(''title'', ZString None),
        (''description'', ZString None),
        (''discount'', ZNumber),
        (''conditions'', ZOptional (ZString None)),
        (''socialCaption'', ZString None),
        (''seoKeywords'', ZArray (ZString None) None),
        (''urgencyText'', ZString None)]"

text \<open>
  \<open>generateObject\<close> either resolves with \<open>result.object\<close> or rejects; which, and
  with what object, is the provider's doing and a parameter here. The whole handler body
  is inside \<open>try\<close>: a body that is not JSON, a \<open>null\<close> body (reading
  \<open>body.businessName\<close> throws) and a rejected \<open>generateObject\<close> all end in the
  \<open>catch\<close>.
\<close>

datatype generated = GenObject json | GenRejects

definition getProperty :: "json \<Rightarrow> string \<Rightarrow> json option" where
  "getProperty v k = (case v of JObj kvs \<Rightarrow> map_of kvs k | _ \<Rightarrow> None)"

definition generateOfferPOST :: "json option \<Rightarrow> generated \<Rightarrow> response" where
  "generateOfferPOST req_body gen =
     (case req_body of
        None \<Rightarrow> JsonResponse 500 (JObj [(''error'', JStr ''Failed to generate content'')])
      | Some JNull \<Rightarrow> JsonResponse 500 (JObj [(''error'', JStr ''Failed to generate content'')])
      | Some b \<Rightarrow>
          if \<not> truthy (getProperty b ''businessName'') then
            JsonResponse 400 (JObj [(''error'', JStr ''Business name is required'')])
          else
            (case gen of
               GenRejects \<Rightarrow> JsonResponse 500 (JObj [(''error'', JStr ''Failed to generate content'')])
             | GenObject obj \<Rightarrow>
                 (case safeParse offerSchema (Some obj) of
                    Invalid \<Rightarrow>
                      JsonResponse 500 (JObj [(''error'', JStr ''Generated content failed validation'')])
                  | Valid None \<Rightarrow>
                      JsonResponse 500 (JObj [(''error'', JStr ''Failed to generate content'')])
                  | Valid (Some d) \<Rightarrow> JsonResponse 200 d)))"

text \<open>
  The declared shape in the specification's words: every required field present and of
  its type, the optional one absent or of its type.
\<close>

definition isString :: "json option \<Rightarrow> bool" where
  "isString v = (case v of Some (JStr s) \<Rightarrow> True | _ \<Rightarrow> False)"

definition isNumber :: "json option \<Rightarrow> bool" where
  "isNumber v = (case v of Some (JNum n) \<Rightarrow> True | _ \<Rightarrow> False)"

definition isStringArray :: "json option \<Rightarrow> bool" where
  "isStringArray v = (case v of Some (JArr xs) \<Rightarrow> list_all (\<lambda>x. isString (Some x)) xs | _ \<Rightarrow> False)"

definition conformsToOffer :: "json \<Rightarrow> bool" where
  "conformsToOffer v =
     (case v of
        JObj kvs \<Rightarrow>
          isString (map_of kvs ''title'')
          \<and> isString (map_of kvs ''description'')
          \<and> isNumber (map_of kvs ''discount'')
          \<and> (map_of kvs ''conditions'' = None \<or> isString (map_of kvs ''conditions''))
          \<and> isString (map_of kvs ''socialCaption'')
          \<and> isStringArray (map_of kvs ''seoKeywords'')
          \<and> isString (map_of kvs ''urgencyText'')
      | _ \<Rightarrow> False)"

definition sampleOffer :: json where
  "sampleOffer =
     JObj [(''title'', JStr ''Taco Tuesday''), (''description'', JStr ''Two for one''),
           (''discount'', JNum 20), (''socialCaption'', JStr ''Tacos!''),
           (''seoKeywords'', JArr [JStr ''tacos'', JStr ''deal'']),
           (''urgencyText'', JStr ''Today only!''), (''internalNote'', JStr ''draft 3'')]"

definition sampleOfferWrongDiscount :: json where
  "sampleOfferWrongDiscount =
     JObj [(''title'', JStr ''Taco Tuesday''), (''description'', JStr ''Two for one''),
           (''discount'', JStr ''20%''), (''socialCaption'', JStr ''Tacos!''),
           (''seoKeywords'', JArr [JStr ''tacos'', JStr ''deal'']),
           (''urgencyText'', JStr ''Today only!'')]"

definition sampleOfferRequest :: json where
  "sampleOfferRequest = JObj [(''businessName'', JStr ''Coastal Bites'')]"


section \<open>The tools of the Digital Twin chat\<close>

text \<open>
  Modelled from the spec: the errors of a tool call (sections 4.2 and 7), for which the
  sources declare no type.
\<close>

datatype tool_error = UnknownTool | InvalidToolInput | ToolExecutionError | ToolTimeout

text \<open>
  The three tool declarations of the handler, each with its input schema and its
  \<open>execute\<close>. The closures read the loaded products and offers; \<open>Date.now()\<close> is
  passed in, rendered, and so is the conversion to a string that a template literal
  applies to a value that is not a string (\<open>toString\<close>). \<open>getProducts\<close> and
  \<open>bookAppointment\<close> destructure their argument, which throws on \<open>null\<close>, and
  \<open>getProducts\<close> calls \<open>category.toLowerCase()\<close> for each product that has a
  category, which throws when \<open>category\<close> is not a string; a handler that throws is a
  ToolExecutionError. On the input their schemas accept the handlers return a value.
\<close>

record tool_declaration =
  tool_name :: string
  tool_description :: string
  inputSchema :: schema
  execute :: "json \<Rightarrow> context_bundle \<Rightarrow> tool_error + json"

definition toLowerCase :: "string \<Rightarrow> string" where
  "toLowerCase s =
     map (\<lambda>c. let n = (of_char c :: nat)
              in if (65 \<le> n \<and> n \<le> 90) \<or> (192 \<le> n \<and> n \<le> 222 \<and> n \<noteq> 215)
                 then char_of (n + 32) else c) s"

definition getOffers :: tool_declaration where
  "getOffers =
     \<lparr> tool_name = ''getOffers'',
       tool_description = ''Get current active offers and deals for this business'',
       inputSchema = ZObject [],
       execute = (\<lambda>input ctx.
         Inr (JArr (map (\<lambda>offer.
                JObj [(''type'', JStr (promotionType offer)),
                      (''discount'', JStr (discountValue offer)),
                      (''conditions'', JStr (conditions offer)),
                      (''endsAt'', JStr (endDate offer))])
              (activeOffers ctx)))) \<rparr>"

definition getProducts :: tool_declaration where
  "getProducts =
     \<lparr> tool_name = ''getProducts'',
       tool_description = ''Get list of products or services offered'',
       inputSchema = ZObject [(''category'', ZOptional (ZString None))],
       execute = (\<lambda>input ctx.
         case input of
           JNull \<Rightarrow> Inl ToolExecutionError
         | _ \<Rightarrow>
           (case (if truthy (getProperty input ''category'')
                  then (case getProperty input ''category'' of
                          Some (JStr cat) \<Rightarrow>
                            Inr (filter (\<lambda>p. case category p of
                                               None \<Rightarrow> False
                                             | Some c \<Rightarrow> str_includes (toLowerCase c) (toLowerCase cat))
                                   (businessProducts ctx))
                        | _ \<Rightarrow>
                            if list_ex (\<lambda>p. category p \<noteq> None) (businessProducts ctx)
                            then Inl ToolExecutionError
                            else Inr [])
                  else Inr (businessProducts ctx)) of
              Inl err \<Rightarrow> Inl err
            | Inr filtered \<Rightarrow>
                Inr (JArr (map (\<lambda>p.
                       JObj [(''name'', JStr (product_name p)),
                             (''price'', JStr (price p)),
                             (''description'', JStr (product_description p))])
                     filtered)))) \<rparr>"

text \<open>
  \<open>${x}\<close> in a template literal: a string as it is, \<open>undefined\<close> as the text
  \<open>undefined\<close>, any other value through the conversion passed in.
\<close>

definition templateValue :: "(json \<Rightarrow> string) \<Rightarrow> json option \<Rightarrow> string" where
  "templateValue toString v =
     (case v of None \<Rightarrow> ''undefined'' | Some (JStr s) \<Rightarrow> s | Some x \<Rightarrow> toString x)"

definition bookAppointment :: "(json \<Rightarrow> string) \<Rightarrow> string \<Rightarrow> tool_declaration" where
  "bookAppointment toString now =
     \<lparr> tool_name = ''bookAppointment'',
       tool_description = ''Request to book an appointment or reservation'',
       inputSchema =
         ZObject [(''date'', ZString None), (''time'', ZString None), (''service'', ZString None),
                  (''name'', ZString None), (''phone'', ZOptional (ZString None))],
       execute = (\<lambda>input ctx.
         case input of
           JNull \<Rightarrow> Inl ToolExecutionError
         | _ \<Rightarrow>
           Inr (JObj [(''status'', JStr ''Booking request submitted''),
                      (''message'',
                         JStr (''We'll contact you to confirm your ''
                               @ templateValue toString (getProperty input ''service'')
                               @ '' appointment for '' @ templateValue toString (getProperty input ''date'')
                               @ '' at '' @ templateValue toString (getProperty input ''time''))),
                      (''reference'', JStr (''BK-'' @ now))])) \<rparr>"

definition twinChatTools :: "(json \<Rightarrow> string) \<Rightarrow> string \<Rightarrow> tool_declaration list" where
  "twinChatTools toString now = [getOffers, getProducts, bookAppointment toString now]"

text \<open>\<open>stopWhen: stepCountIs(5)\<close>.\<close>

definition stepCount :: nat where
  "stepCount = 5"

section \<open>The turn orchestrator\<close>

text \<open>
  Modelled from the spec: the tool registry's \<open>resolve\<close> and \<open>execute\<close>, the turn state
  machine and its stream events. The sources hand all of it to \<open>streamText\<close> of the AI
  SDK (streaming.md 131-188 and 402-410) and hold no code of their own for the loop, so
  the definitions of this section follow sections 3, 4.2, 4.3 and 7 of the specification.
\<close>

text \<open>
  Modelled from the spec: the taxonomy codes of section 7 a turn can fail with, for
  which the sources declare no type.
\<close>

datatype error_code = AuthRejected | RateLimited | StepLimitExceeded | UpstreamDisconnect | TurnTimeout

text \<open>
  Modelled from the spec: the conversation history of section 3, an ordered sequence of
  role-tagged messages whose parts are text or a tool invocation with its output or
  error; the sources take the messages from the SDK's types.
\<close>

datatype part = TextPart string | ToolInvocationResult string json "tool_error + json"

datatype message = Message role "part list"

text \<open>
  Modelled from the spec: the StreamEvent variants of section 3; in the sources the
  events are those of the SDK's stream.
\<close>

datatype stream_event =
    TextDelta string
  | ToolCallStarted string json
  | ToolCallResult string "tool_error + json"
  | TurnError error_code
  | TurnComplete string

text \<open>
  Modelled from the spec: \<open>resolve(name)\<close> of section 4.2, which is missing from the
  sources; it fails with UnknownTool.
\<close>

definition resolve :: "tool_declaration list \<Rightarrow> string \<Rightarrow> tool_error + tool_declaration" where
  "resolve reg name =
     (case find (\<lambda>d. tool_name d = name) reg of None \<Rightarrow> Inl UnknownTool | Some d \<Rightarrow> Inr d)"

text \<open>
  Modelled from the spec: \<open>execute(name, rawInput, context)\<close> of section 4.2, which is
  missing from the sources; the raw input is validated against the tool's input schema
  first (InvalidToolInput on mismatch), then the handler runs.
\<close>

definition registry_execute ::
  "tool_declaration list \<Rightarrow> string \<Rightarrow> json \<Rightarrow> context_bundle \<Rightarrow> tool_error + json" where
  "registry_execute reg name rawInput ctx =
     (case resolve reg name of
        Inl err \<Rightarrow> Inl err
      | Inr d \<Rightarrow>
          (case safeParse (inputSchema d) (Some rawInput) of
             Valid (Some input) \<Rightarrow> execute d input ctx
           | _ \<Rightarrow> Inl InvalidToolInput))"

text \<open>
  Modelled from the spec: the provider collaborator of section 6, which is missing from
  the sources. One response is a run of text chunks that ends normally, in a tool-call
  request (with the text that trails it in the same chunk), or in a provider failure.
\<close>

datatype response_end =
    EndOfResponse
  | ToolCallRequest string json string
  | ProviderFailure error_code

record provider_response =
  chunks :: "string list"
  ending :: response_end

text \<open>
  Modelled from the spec: what the orchestrator is constructed with (sections 6 and 9):
  the step bound, the provider, the registry and the context bundle of the turn.
\<close>

record orchestrator =
  maxSteps :: nat
  provider :: "string \<Rightarrow> message list \<Rightarrow> provider_response"
  registry :: "tool_declaration list"
  contextBundle :: context_bundle

text \<open>
  Modelled from the spec: the states of section 4.3, which are missing from the sources.
  \<open>steps\<close> counts the requests sent to the provider in this turn.
\<close>

datatype phase =
    Requesting
  | Streaming "string list" response_end
  | ToolPending string json
  | Completed
  | Failed error_code

record turn =
  phase :: phase
  history :: "message list"
  steps :: nat
  emitted :: "stream_event list"
  answer :: string
  buffered :: string

text \<open>
  Modelled from the spec: the final states (Completed and Failed) and the terminal events
  (turn-complete and turn-error) of sections 4.3 and 4.5.
\<close>

fun isFinal :: "phase \<Rightarrow> bool" where
  "isFinal Completed = True"
| "isFinal (Failed err) = True"
| "isFinal _ = False"

fun isTerminal :: "stream_event \<Rightarrow> bool" where
  "isTerminal (TurnComplete t) = True"
| "isTerminal (TurnError err) = True"
| "isTerminal _ = False"

text \<open>
  Modelled from the spec: one transition of the state machine of section 4.3, which is
  missing from the sources. Requesting sends the prompt and the history unless the step
  bound is reached, in which case the turn fails with StepLimitExceeded; Streaming emits
  one text delta per chunk and then follows the end of the response; ToolPending emits
  tool-call-started, executes, appends the result to the history, emits tool-call-result,
  releases the buffered trailing text and goes back to Requesting.
\<close>

definition orchestrator_step :: "orchestrator \<Rightarrow> turn \<Rightarrow> turn" where
  "orchestrator_step orch t =
     (case phase t of
        Requesting \<Rightarrow>
          if maxSteps orch \<le> steps t then
            t\<lparr> phase := Failed StepLimitExceeded, emitted := emitted t @ [TurnError StepLimitExceeded] \<rparr>
          else
            (let r = provider orch (systemPrompt (contextBundle orch)) (history t)
             in t\<lparr> phase := Streaming (chunks r) (ending r), steps := Suc (steps t) \<rparr>)
      | Streaming (c # cs) e \<Rightarrow>
          t\<lparr> phase := Streaming cs e, emitted := emitted t @ [TextDelta c], answer := answer t @ c \<rparr>
      | Streaming [] EndOfResponse \<Rightarrow>
          t\<lparr> phase := Completed, emitted := emitted t @ [TurnComplete (answer t)] \<rparr>
      | Streaming [] (ToolCallRequest name rawInput trailing) \<Rightarrow>
          t\<lparr> phase := ToolPending name rawInput, buffered := trailing \<rparr>
      | Streaming [] (ProviderFailure err) \<Rightarrow>
          t\<lparr> phase := Failed err, emitted := emitted t @ [TurnError err] \<rparr>
      | ToolPending name rawInput \<Rightarrow>
          (let r = registry_execute (registry orch) name rawInput (contextBundle orch)
           in t\<lparr> phase := Requesting,
                 history := history t @ [Message Assistant [ToolInvocationResult name rawInput r]],
                 emitted := emitted t @ [ToolCallStarted name rawInput, ToolCallResult name r]
                              @ (if buffered t = [] then [] else [TextDelta (buffered t)]),
                 answer := answer t @ buffered t,
                 buffered := [] \<rparr>)
      | Completed \<Rightarrow> t
      | Failed err \<Rightarrow> t)"

text \<open>
  The measure of a turn's termination: the requests left, then the place in the cycle
  Requesting, Streaming, ToolPending, then the chunks still to stream.
\<close>

fun phaseRank :: "phase \<Rightarrow> nat" where
  "phaseRank (Streaming cs e) = 3"
| "phaseRank (ToolPending name rawInput) = 2"
| "phaseRank Requesting = 1"
| "phaseRank _ = 0"

fun pendingChunks :: "phase \<Rightarrow> nat" where
  "pendingChunks (Streaming cs e) = length cs"
| "pendingChunks _ = 0"

text \<open>
  Modelled from the spec: a whole turn, the state machine run from a state to a final
  state. It is total: every turn ends.
\<close>

function run_turn :: "orchestrator \<Rightarrow> turn \<Rightarrow> turn" where
  "run_turn orch t = (if isFinal (phase t) then t else run_turn orch (orchestrator_step orch t))"
  by pat_completeness auto
termination
proof (relation "measures [\<lambda>(orch, t). if isFinal (phase t) then 0 else maxSteps orch - steps t,
                           \<lambda>(orch, t). phaseRank (phase t),
                           \<lambda>(orch, t). pendingChunks (phase t)]")
  show "wf (measures [\<lambda>(orch, t). if isFinal (phase t) then 0 else maxSteps orch - steps t,
                           \<lambda>(orch, t). phaseRank (phase t),
                           \<lambda>(orch, t). pendingChunks (phase t)])"
    by simp
next
  fix orch :: orchestrator and t :: turn
  assume "\<not> isFinal (phase t)"
  then show "((orch, orchestrator_step orch t), (orch, t))
      \<in> measures [\<lambda>(orch, t). if isFinal (phase t) then 0 else maxSteps orch - steps t,
                           \<lambda>(orch, t). phaseRank (phase t),
                           \<lambda>(orch, t). pendingChunks (phase t)]"
    by (cases "phase t")
       (auto simp: orchestrator_step_def Let_def split: list.splits response_end.splits)
qed

text \<open>
  Modelled from the spec: the start of a turn, in Requesting, with the history of the
  request, no request sent and nothing emitted.
\<close>

definition start_turn :: "message list \<Rightarrow> turn" where
  "start_turn h = \<lparr> phase = Requesting, history = h, steps = 0, emitted = [], answer = [], buffered = [] \<rparr>"

definition isToolCallStarted :: "stream_event \<Rightarrow> bool" where
  "isToolCallStarted ev = (case ev of ToolCallStarted name rawInput \<Rightarrow> True | _ \<Rightarrow> False)"

definition requestsTool :: "response_end \<Rightarrow> bool" where
  "requestsTool e = (case e of ToolCallRequest name rawInput trailing \<Rightarrow> True | _ \<Rightarrow> False)"

text \<open>
  What holds of a turn while it runs: no terminal event before the final state and one,
  the last, in it; the requests sent so far within the bound, with one request behind
  every tool call; and, against a provider that asks for a tool in every response, no way
  out of the loop but the step bound.
\<close>

definition eventsWellFormed :: "turn \<Rightarrow> bool" where
  "eventsWellFormed t =
     (if isFinal (phase t)
      then emitted t \<noteq> [] \<and> isTerminal (last (emitted t)) \<and> \<not> list_ex isTerminal (butlast (emitted t))
      else \<not> list_ex isTerminal (emitted t))"

definition inProgress :: "phase \<Rightarrow> nat" where
  "inProgress p = (case p of Streaming cs e \<Rightarrow> 1 | ToolPending name rawInput \<Rightarrow> 1 | _ \<Rightarrow> 0)"

definition withinStepBound :: "orchestrator \<Rightarrow> turn \<Rightarrow> bool" where
  "withinStepBound orch t =
     (steps t \<le> maxSteps orch
      \<and> length (filter isToolCallStarted (emitted t)) + inProgress (phase t) \<le> steps t)"

definition stuckOnTools :: "orchestrator \<Rightarrow> turn \<Rightarrow> bool" where
  "stuckOnTools orch t =
     (case phase t of
        Requesting \<Rightarrow> True
      | Streaming cs e \<Rightarrow> requestsTool e
      | ToolPending name rawInput \<Rightarrow> True
      | Completed \<Rightarrow> False
      | Failed err \<Rightarrow>
          err = StepLimitExceeded \<and> maxSteps orch \<le> steps t
          \<and> emitted t \<noteq> [] \<and> last (emitted t) = TurnError StepLimitExceeded)"

subsection \<open>Sample turns\<close>

definition sampleBundle :: context_bundle where
  "sampleBundle =
     \<lparr> card = \<lparr> card_id = ''card-1'', businessName = ''Coastal Bites'', industryType = ''restaurant'',
                  description = ''Seafood by the beach'', address = None \<rparr>,
       twin = None,
       businessProducts = [\<lparr> product_cardId = ''card-1'', product_name = ''Fish tacos'', price = ''12.50'',
                     product_description = ''Two tacos'', category = Some ''Mains'' \<rparr>],
       activeOffers = [\<lparr> promotion_cardId = ''card-1'', promotionType = ''percentage'', discountValue = ''20'',
                       conditions = ''Dine-in only'', endDate = ''2030-01-01'' \<rparr>],
       systemPrompt = ''You are the Digital Twin AI'' \<rparr>"

definition sampleToString :: "json \<Rightarrow> string" where
  "sampleToString v = ''[object Object]''"

definition alwaysCallsTool :: orchestrator where
  "alwaysCallsTool =
     \<lparr> maxSteps = stepCount,
       provider = (\<lambda>sys h. \<lparr> chunks = [''Let me check. ''], ending = ToolCallRequest ''getOffers'' (JObj []) [] \<rparr>),
       registry = twinChatTools sampleToString ''1700000000000'',
       contextBundle = sampleBundle \<rparr>"

definition badBooking :: json where
  "badBooking = JObj [(''date'', JNum 20250101), (''time'', JStr ''noon''), (''service'', JStr ''lunch''), (''name'', JStr ''Al'')]"

definition bookThenAnswer :: orchestrator where
  "bookThenAnswer =
     \<lparr> maxSteps = stepCount,
       provider = (\<lambda>sys h. if h = [] then \<lparr> chunks = [], ending = ToolCallRequest ''bookAppointment'' badBooking '' One moment.'' \<rparr>
                             else \<lparr> chunks = [''Which date '', ''would you like?''], ending = EndOfResponse \<rparr>),
       registry = twinChatTools sampleToString ''1700000000000'',
       contextBundle = sampleBundle \<rparr>"


definition pendingBadBooking :: turn where
  "pendingBadBooking =
     \<lparr> phase = ToolPending ''bookAppointment'' badBooking, history = [Message User [TextPart ''book lunch'']],
       steps = 1, emitted = [TextDelta ''Sure. ''], answer = ''Sure. '', buffered = [] \<rparr>"


section \<open>Properties of the request validation\<close>

lemma parse_items_invalid:
  "x \<in> set xs \<Longrightarrow> safeParse s (Some x) = Invalid \<Longrightarrow> parse_items s xs = None"
  by (induction xs) (auto split: parsed.splits option.splits)

lemma parse_shape_invalid:
  "(k, s) \<in> set shape \<Longrightarrow> safeParse s (map_of kvs k) = Invalid \<Longrightarrow> parse_shape shape kvs = None"
  by (induction shape) (auto split: parsed.splits option.splits)

lemma object_invalid_field:
  assumes "(k, s) \<in> set shape" and "safeParse s (map_of kvs k) = Invalid"
  shows "safeParse (ZObject shape) (Some (JObj kvs)) = Invalid"
  using parse_shape_invalid[OF assms] by simp

lemma part_too_long_invalid:
  assumes "textTooLong p"
  shows "safeParse messagePartSchema (Some p) = Invalid"
proof -
  from assms obtain kvs where k: "p = JObj kvs"
    by (cases p) (simp_all add: textTooLong_def)
  with assms obtain v where v: "map_of kvs ''text'' = Some v"
    by (cases "map_of kvs ''text''") (simp_all add: textTooLong_def)
  with assms k obtain t where t: "v = JStr t" "10000 < length t"
    by (cases v) (simp_all add: textTooLong_def)
  note p = k v[unfolded t(1)] t(2)
  have "safeParse (ZOptional (ZString (Some 10000))) (map_of kvs ''text'') = Invalid"
    using p by simp
  then show ?thesis
    unfolding messagePartSchema_def p(1)
    by (rule object_invalid_field[rotated]) simp
qed

lemma parts_array_invalid:
  assumes "list_ex textTooLong ps"
  shows "safeParse (ZArray messagePartSchema None) (Some (JArr ps)) = Invalid"
proof -
  from assms obtain p where "p \<in> set ps" "textTooLong p"
    by (auto simp: list_ex_iff)
  then have "parse_items messagePartSchema ps = None"
    by (blast intro: parse_items_invalid part_too_long_invalid)
  then show ?thesis by simp
qed

lemma message_too_long_invalid:
  assumes "list_ex textTooLong (partsOf m)"
  shows "safeParse messageSchema (Some m) = Invalid"
proof (cases m)
  case (JObj kvs)
  let ?P = "case map_of kvs ''parts'' of Some (JArr ps) \<Rightarrow> ps | _ \<Rightarrow> []"
  let ?C = "case map_of kvs ''content'' of Some (JArr ps) \<Rightarrow> ps | _ \<Rightarrow> []"
  from assms JObj have "list_ex textTooLong ?P \<or> list_ex textTooLong ?C"
    by (simp add: partsOf_def)
  then show ?thesis
  proof
    assume "list_ex textTooLong ?P"
    then obtain ps where ps: "map_of kvs ''parts'' = Some (JArr ps)" "list_ex textTooLong ps"
      by (auto split: option.splits json.splits)
    have "safeParse (ZOptional (ZArray messagePartSchema None)) (map_of kvs ''parts'') = Invalid"
      using parts_array_invalid[OF ps(2)] ps(1) by simp
    then show ?thesis
      unfolding messageSchema_def JObj
      by (rule object_invalid_field[rotated]) simp
  next
    assume "list_ex textTooLong ?C"
    then obtain ps where ps: "map_of kvs ''content'' = Some (JArr ps)" "list_ex textTooLong ps"
      by (auto split: option.splits json.splits)
    have "safeParse (ZOptional (ZUnion [ZString None, ZArray messagePartSchema None])) (map_of kvs ''content'') = Invalid"
      using parts_array_invalid[OF ps(2)] ps(1) by simp
    then show ?thesis
      unfolding messageSchema_def JObj
      by (rule object_invalid_field[rotated]) simp
  qed
qed (use assms in \<open>simp_all add: partsOf_def\<close>)

lemma exceedsBounds_invalid:
  assumes "exceedsBounds b"
  shows "safeParse chatRequestSchema (Some b) = Invalid"
proof -
  from assms obtain kvs ms where b: "b = JObj kvs" "map_of kvs ''messages'' = Some (JArr ms)"
    and viol: "100 < length ms \<or> list_ex (\<lambda>m. list_ex textTooLong (partsOf m)) ms"
    by (auto simp: exceedsBounds_def requestMessages_def split: json.splits option.splits)
  from viol have "safeParse (ZArray messageSchema (Some 100)) (Some (JArr ms)) = Invalid"
  proof
    assume "100 < length ms" then show ?thesis by simp
  next
    assume "list_ex (\<lambda>m. list_ex textTooLong (partsOf m)) ms"
    then obtain m where "m \<in> set ms" "list_ex textTooLong (partsOf m)"
      by (auto simp: list_ex_iff)
    then have "parse_items messageSchema ms = None"
      by (blast intro: parse_items_invalid message_too_long_invalid)
    then show ?thesis by simp
  qed
  with b show ?thesis by (simp add: chatRequestSchema_def)
qed

lemma parse_items_encoded:
  "(\<And>x. x \<in> set xs \<Longrightarrow> safeParse s (Some (f x)) = Valid (Some (f x))) \<Longrightarrow>
   parse_items s (map f xs) = Some (map f xs)"
  by (induction xs) auto

lemma part_within_valid:
  "partWithinBound p \<Longrightarrow> safeParse messagePartSchema (Some (encodePart p)) = Valid (Some (encodePart p))"
  by (cases "part_text p") (simp_all add: partWithinBound_def messagePartSchema_def encodePart_def)

lemma parts_within_valid:
  "list_all partWithinBound ps \<Longrightarrow>
   safeParse (ZArray messagePartSchema None) (Some (JArr (map encodePart ps))) = Valid (Some (JArr (map encodePart ps)))"
  by (simp add: parse_items_encoded part_within_valid list_all_iff)

lemma roleName_enum: "roleName r \<in> set [''user'', ''assistant'', ''system'']"
  by (cases r) simp_all

lemma message_within_valid:
  assumes "list_all partWithinBound (messageParts m)"
  shows "safeParse messageSchema (Some (encodeMessage m)) = Valid (Some (encodeMessage m))"
proof -
  have role: "safeParse (ZEnum [''user'', ''assistant'', ''system'']) (Some (JStr (roleName (msg_role m))))
      = Valid (Some (JStr (roleName (msg_role m))))"
    using roleName_enum[of "msg_role m"] by simp
  have parts: "\<And>ps. msg_parts m = Some ps \<Longrightarrow>
      safeParse (ZArray messagePartSchema None) (Some (JArr (map encodePart ps))) = Valid (Some (JArr (map encodePart ps)))"
    using assms by (intro parts_within_valid) (simp add: messageParts_def)
  have content: "\<And>ps. msg_content m = Some (ContentParts ps) \<Longrightarrow>
      safeParse (ZArray messagePartSchema None) (Some (JArr (map encodePart ps))) = Valid (Some (JArr (map encodePart ps)))"
    using assms by (intro parts_within_valid) (simp add: messageParts_def)
  note [simp del] = safeParse.simps(3,4)
  show ?thesis
  proof (cases "msg_id m")
    case None
    show ?thesis
    proof (cases "msg_parts m")
      case N2: None
      show ?thesis
      proof (cases "msg_content m")
        case N3: None
        show ?thesis using role by (simp add: messageSchema_def encodeMessage_def None N2 N3)
      next
        case (Some c)
        show ?thesis using role content
          by (cases c) (simp_all add: messageSchema_def encodeMessage_def None N2 Some)
      qed
    next
      case S2: (Some ps)
      show ?thesis
      proof (cases "msg_content m")
        case N3: None
        show ?thesis using role parts by (simp add: messageSchema_def encodeMessage_def None S2 N3)
      next
        case (Some c)
        show ?thesis using role content parts
          by (cases c) (simp_all add: messageSchema_def encodeMessage_def None S2 Some)
      qed
    qed
  next
    case S1: (Some i)
    show ?thesis
    proof (cases "msg_parts m")
      case N2: None
      show ?thesis
      proof (cases "msg_content m")
        case N3: None
        show ?thesis using role by (simp add: messageSchema_def encodeMessage_def S1 N2 N3)
      next
        case (Some c)
        show ?thesis using role content
          by (cases c) (simp_all add: messageSchema_def encodeMessage_def S1 N2 Some)
      qed
    next
      case S2: (Some ps)
      show ?thesis
      proof (cases "msg_content m")
        case N3: None
        show ?thesis using role parts by (simp add: messageSchema_def encodeMessage_def S1 S2 N3)
      next
        case (Some c)
        show ?thesis using role content parts
          by (cases c) (simp_all add: messageSchema_def encodeMessage_def S1 S2 Some)
      qed
    qed
  qed
qed

lemma withinBounds_valid:
  "withinBounds ms \<Longrightarrow> safeParse chatRequestSchema (Some (encodeRequest ms)) = Valid (Some (encodeRequest ms))"
  by (simp add: withinBounds_def chatRequestSchema_def encodeRequest_def parse_items_encoded
      message_within_valid list_all_iff)

section \<open>Properties of the chat endpoint\<close>

lemma POST_no_session: "getSession e = None \<Longrightarrow> POST e = (errorResponse 401 ''Unauthorized'', [AuthGetSession])"
  by (simp add: POST_def)

lemma POST_bad_json:
  "getSession e = Some s \<Longrightarrow> req_json e = None \<Longrightarrow> POST e = (errorResponse 400 ''Invalid JSON'', [AuthGetSession, ReqJson])"
  by (simp add: POST_def)

lemma POST_invalid:
  "getSession e = Some s \<Longrightarrow> req_json e = Some b \<Longrightarrow> safeParse chatRequestSchema (Some b) = Invalid \<Longrightarrow>
   POST e = (JsonResponse 400 (JObj [(''error'', JStr ''Invalid request''), (''details'', fieldErrors e b)]),
             [AuthGetSession, ReqJson, SchemaSafeParse])"
  by (simp add: POST_def)

lemma POST_valid:
  "getSession e = Some s \<Longrightarrow> req_json e = Some b \<Longrightarrow> safeParse chatRequestSchema (Some b) = Valid d \<Longrightarrow>
   POST e =
     (case map_option trim (OPENROUTER_API_KEY e) of
        None \<Rightarrow> (errorResponse 500 missingKeyMessage, [AuthGetSession, ReqJson, SchemaSafeParse])
      | Some apiKey \<Rightarrow>
          if apiKey = [] then
            (errorResponse 500 missingKeyMessage, [AuthGetSession, ReqJson, SchemaSafeParse])
          else if \<not> startsWith apiKey ''sk-or-v1-'' \<or> str_includes apiKey ''your-key'' then
            (errorResponse 500 invalidKeyMessage, [AuthGetSession, ReqJson, SchemaSafeParse])
          else
            (case convertToModelMessages e (messagesOf d) of
               Inl err \<Rightarrow> (Unhandled err, [AuthGetSession, ReqJson, SchemaSafeParse])
             | Inr modelMessages \<Rightarrow>
                 (StreamResponse (map toUIChunk (streamText e apiKey (modelId e) modelMessages)),
                  [AuthGetSession, ReqJson, SchemaSafeParse, ProviderStreamText])))"
  by (simp add: POST_def)

lemma tooManyMessages_exceeds: "exceedsBounds tooManyMessages"
  by (simp add: exceedsBounds_def requestMessages_def tooManyMessages_def)

lemma helloMessage_messages:
  "messagesOf (Some (encodeRequest [helloMessage])) = Some (JArr [encodeMessage helloMessage])"
  by (simp add: messagesOf_def encodeRequest_def)

lemma helloMessage_within: "withinBounds [helloMessage]"
  by (simp add: withinBounds_def helloMessage_def messageParts_def partWithinBound_def)

text \<open>
  The bound on text is on the \<open>text\<close> of a part. A message whose \<open>content\<close> is a
  plain string is not a part, and the schema puts no bound on it.
\<close>

lemma content_string_not_bounded:
  "safeParse chatRequestSchema (Some longContentRequest) = Valid (Some longContentRequest)"
  by (simp add: chatRequestSchema_def messageSchema_def longContentRequest_def)

text \<open>
  C3. A body with more than 100 messages, or with a part whose text is longer than 10000,
  never reaches the provider: without a session the answer is 401, with one it is the
  400 of the validation, and in both cases the trace holds no provider call. Conversely
  a request of the schema's type with at most 100 messages and no part text longer than
  10000 is accepted by the validation as it is, and the handler goes on past it.
\<close>

theorem chat_request_bounds_enforced:
  "(req_json e = Some b \<and> exceedsBounds b \<longrightarrow>
      ProviderStreamText \<notin> set (snd (POST e))
      \<and> (getSession e = None \<longrightarrow> fst (POST e) = JsonResponse 401 (JObj [(''error'', JStr ''Unauthorized'')]))
      \<and> (getSession e \<noteq> None \<longrightarrow>
            POST e = (JsonResponse 400 (JObj [(''error'', JStr ''Invalid request''), (''details'', fieldErrors e b)]),
                      [AuthGetSession, ReqJson, SchemaSafeParse])))
   \<and> (withinBounds ms \<longrightarrow>
        safeParse chatRequestSchema (Some (encodeRequest ms)) = Valid (Some (encodeRequest ms))
        \<and> (getSession e \<noteq> None \<and> req_json e = Some (encodeRequest ms) \<longrightarrow>
              SchemaSafeParse \<in> set (snd (POST e)) \<and> (\<forall>x. fst (POST e) \<noteq> JsonResponse 400 x)))"
proof (intro conjI impI)
  assume h: "req_json e = Some b \<and> exceedsBounds b"
  then have inv: "safeParse chatRequestSchema (Some b) = Invalid"
    by (simp add: exceedsBounds_invalid)
  show "ProviderStreamText \<notin> set (snd (POST e))"
  proof (cases "getSession e")
    case None
    then show ?thesis by (simp add: POST_no_session)
  next
    case (Some s)
    then show ?thesis using h inv by (simp add: POST_invalid)
  qed
  show "fst (POST e) = JsonResponse 401 (JObj [(''error'', JStr ''Unauthorized'')])" if "getSession e = None"
    using that by (simp add: POST_no_session errorResponse_def)
  show "POST e = (JsonResponse 400 (JObj [(''error'', JStr ''Invalid request''), (''details'', fieldErrors e b)]),
                      [AuthGetSession, ReqJson, SchemaSafeParse])" if "getSession e \<noteq> None"
    using that h inv by (auto simp: POST_invalid)
next
  assume w: "withinBounds ms"
  then show v: "safeParse chatRequestSchema (Some (encodeRequest ms)) = Valid (Some (encodeRequest ms))"
    by (rule withinBounds_valid)
  assume s: "getSession e \<noteq> None \<and> req_json e = Some (encodeRequest ms)"
  then obtain sess where "getSession e = Some sess" by auto
  note P = POST_valid[OF this conjunct2[OF s] v]
  show "SchemaSafeParse \<in> set (snd (POST e))"
    unfolding P by (simp split: option.splits sum.splits)
  show "\<forall>x. fst (POST e) \<noteq> JsonResponse 400 x"
    unfolding P by (simp add: errorResponse_def split: option.splits sum.splits)
qed

theorem chat_request_bounds_enforced_witness:
  "exceedsBounds tooManyMessages
   \<and> POST (exampleEnv (Some ''alice'') (Some tooManyMessages) (Some ''sk-or-v1-abc'')) =
       (JsonResponse 400 (JObj [(''error'', JStr ''Invalid request''), (''details'', JObj [])]),
        [AuthGetSession, ReqJson, SchemaSafeParse])
   \<and> withinBounds [helloMessage]
   \<and> safeParse chatRequestSchema (Some (encodeRequest [helloMessage])) = Valid (Some (encodeRequest [helloMessage]))"
  using chat_request_bounds_enforced
          [of "exampleEnv (Some ''alice'') (Some tooManyMessages) (Some ''sk-or-v1-abc'')" tooManyMessages "[helloMessage]"]
        tooManyMessages_exceeds helloMessage_within
  by (simp add: exampleEnv_def)

text \<open>
  C10. Without a session the handler answers 401 with body \<open>{"error":"Unauthorized"}\<close>,
  having only looked the session up: the body is not read, nothing is validated and the
  provider is not called, whatever the body and the environment are. With a session and
  a body that is not JSON it answers 400.
\<close>

theorem POST_unauthorized_first:
  "(getSession e = None \<longrightarrow>
      POST e = (JsonResponse 401 (JObj [(''error'', JStr ''Unauthorized'')]), [AuthGetSession]))
   \<and> (getSession e \<noteq> None \<and> req_json e = None \<longrightarrow>
      fst (POST e) = JsonResponse 400 (JObj [(''error'', JStr ''Invalid JSON'')])
      \<and> snd (POST e) = [AuthGetSession, ReqJson])"
  by (auto simp: POST_def errorResponse_def split: option.splits)

theorem POST_unauthorized_first_witness:
  "getSession (exampleEnv None (Some tooManyMessages) None) = None
   \<and> POST (exampleEnv None (Some tooManyMessages) None) =
     (JsonResponse 401 (JObj [(''error'', JStr ''Unauthorized'')]), [AuthGetSession])
   \<and> getSession (exampleEnv (Some ''alice'') None None) \<noteq> None
   \<and> req_json (exampleEnv (Some ''alice'') None None) = None
   \<and> fst (POST (exampleEnv (Some ''alice'') None None)) = JsonResponse 400 (JObj [(''error'', JStr ''Invalid JSON'')])
   \<and> snd (POST (exampleEnv (Some ''alice'') None None)) = [AuthGetSession, ReqJson]"
  using POST_unauthorized_first [of "exampleEnv None (Some tooManyMessages) None"]
        POST_unauthorized_first [of "exampleEnv (Some ''alice'') None None"]
  by (simp add: exampleEnv_def)

text \<open>
  C5, as stated, fails: an \<open>Error\<close> that is neither a 401 nor a 429 has its
  \<open>message\<close> forwarded verbatim, and so has a thrown string. Here the upstream body
  itself reaches the client, and it is none of the three fixed messages.
\<close>

theorem friendly_error_forwards_raw_text:
  "getOpenRouterFriendlyError (ThrownObject (VNum 500) (VStr rawUpstreamBody) (Some rawUpstreamBody)) = rawUpstreamBody
   \<and> getOpenRouterFriendlyError (ThrownString rawUpstreamBody) = rawUpstreamBody
   \<and> rawUpstreamBody \<notin> curatedMessages"
  by (simp add: getOpenRouterFriendlyError_def rawUpstreamBody_def userNotFoundNeedle_def startsWith_def
      curatedMessages_def authFailedMessage_def rateLimitMessage_def unknownErrorMessage_def)

text \<open>
  C5, amended. An error with status 401, or with a string response body that contains
  the text \<open>"User not found"\<close> with both of its quotation marks, yields the fixed
  authentication message, whatever else the error holds, a status 429 included. An error
  with status 429 whose body does not contain that text yields the fixed rate-limit
  message. An error that is neither yields its own message (the \<open>message\<close> of an
  \<open>Error\<close>, or the thrown string), and \<open>Unknown AI error.\<close> when it has none. So
  the result is always one of the three fixed messages or the error's own message.
\<close>

theorem friendly_error_curated_or_own_message:
  "(statusOf err = VNum 401 \<or> bodySaysUserNotFound err \<longrightarrow> getOpenRouterFriendlyError err = authFailedMessage)
   \<and> (statusOf err = VNum 429 \<and> \<not> bodySaysUserNotFound err \<longrightarrow> getOpenRouterFriendlyError err = rateLimitMessage)
   \<and> (statusOf err \<noteq> VNum 401 \<and> statusOf err \<noteq> VNum 429 \<and> \<not> bodySaysUserNotFound err \<longrightarrow>
        getOpenRouterFriendlyError err = (case ownMessage err of Some m \<Rightarrow> m | None \<Rightarrow> unknownErrorMessage))
   \<and> (getOpenRouterFriendlyError err \<in> curatedMessages \<or> ownMessage err = Some (getOpenRouterFriendlyError err))"
  by (cases err; cases "responseBody err"; cases "errorMessage err")
     (auto simp: getOpenRouterFriendlyError_def statusOf_def bodySaysUserNotFound_def ownMessage_def
        curatedMessages_def)

theorem friendly_error_curated_or_own_message_witness:
  "statusOf (ThrownObject (VNum 401) (VStr rawUpstreamBody) (Some rawUpstreamBody)) = VNum 401
   \<and> statusOf (ThrownObject (VNum 429) (VStr rawUpstreamBody) (Some rawUpstreamBody)) = VNum 429
   \<and> \<not> bodySaysUserNotFound (ThrownObject (VNum 429) (VStr rawUpstreamBody) (Some rawUpstreamBody))
   \<and> getOpenRouterFriendlyError (ThrownObject (VNum 401) (VStr rawUpstreamBody) (Some rawUpstreamBody)) = authFailedMessage
   \<and> getOpenRouterFriendlyError (ThrownObject (VNum 429) (VStr rawUpstreamBody) (Some rawUpstreamBody)) = rateLimitMessage
   \<and> getOpenRouterFriendlyError (ThrownObject (VNum 500) (VStr rawUpstreamBody) None) = unknownErrorMessage"
  using friendly_error_curated_or_own_message [of "ThrownObject (VNum 401) (VStr rawUpstreamBody) (Some rawUpstreamBody)"]
        friendly_error_curated_or_own_message [of "ThrownObject (VNum 429) (VStr rawUpstreamBody) (Some rawUpstreamBody)"]
        friendly_error_curated_or_own_message [of "ThrownObject (VNum 500) (VStr rawUpstreamBody) None"]
  by (simp add: statusOf_def bodySaysUserNotFound_def ownMessage_def rawUpstreamBody_def
       userNotFoundNeedle_def startsWith_def)

text \<open>
  Two inputs at the edges of the rule. The body is searched before the status 429 is
  looked at, so a rate-limited error whose body holds the quoted text gets the
  authentication message. And the searched text ends in a quotation mark, so a body whose
  message is \<open>User not found.\<close>, with the full stop, is not recognised: without a status
  401 the error's own message goes out.
\<close>

lemma rate_limited_with_quoted_text_is_auth:
  "getOpenRouterFriendlyError (ThrownObject (VNum 429) (VStr quotedUserNotFoundBody) (Some ''Too many requests''))
     = authFailedMessage"
  by (simp add: getOpenRouterFriendlyError_def quotedUserNotFoundBody_def userNotFoundNeedle_def
      startsWith_def)

lemma full_stop_body_not_recognised:
  "getOpenRouterFriendlyError (ThrownObject (VNum 403) (VStr fullStopUserNotFoundBody) (Some ''User not found.''))
     = ''User not found.''"
  by (simp add: getOpenRouterFriendlyError_def fullStopUserNotFoundBody_def userNotFoundNeedle_def
      startsWith_def)

text \<open>What reaches the client as an error of the stream is this function's result.\<close>

lemma stream_errors_are_friendly:
  assumes "fst (POST e) = StreamResponse cs" and "UIError m \<in> set cs"
  shows "\<exists>err. m = getOpenRouterFriendlyError err"
proof -
  from assms(1) obtain parts where cs: "cs = map toUIChunk parts"
    by (auto simp: POST_def errorResponse_def split: option.splits parsed.splits if_splits sum.splits)
  with assms(2) obtain p where p: "toUIChunk p = UIError m"
    by auto
  show ?thesis
  proof (cases p)
    case (PartText t)
    with p show ?thesis by simp
  next
    case (PartError err)
    with p show ?thesis by auto
  qed
qed

text \<open>
  C6, as stated, fails: the handler reads the provider credential on every request, and a
  request with a session and a valid body is answered 500 when the key is missing, and
  500 again when the key has the wrong shape.
\<close>

theorem credential_check_fails_request:
  "POST (exampleEnv (Some ''alice'') (Some (encodeRequest [helloMessage])) None) =
     (JsonResponse 500 (JObj [(''error'', JStr missingKeyMessage)]), [AuthGetSession, ReqJson, SchemaSafeParse])
   \<and> POST (exampleEnv (Some ''alice'') (Some (encodeRequest [helloMessage])) (Some ''sk-your-key-here'')) =
     (JsonResponse 500 (JObj [(''error'', JStr invalidKeyMessage)]), [AuthGetSession, ReqJson, SchemaSafeParse])"
  using withinBounds_valid[OF helloMessage_within]
  by (simp add: POST_def exampleEnv_def errorResponse_def trim_def isWhiteSpace_def startsWith_def)

text \<open>
  C6, amended. The credential is checked by the handler, per request, after the session
  and the body have been checked: a missing or blank key, and a key that does not start
  with \<open>sk-or-v1-\<close> or that contains \<open>your-key\<close>, fail that request with a 500
  before any provider call; with any other key the answer is no 500 of the handler and,
  once the messages are converted, the provider is called.
\<close>

theorem credential_checked_per_request:
  "getSession e \<noteq> None \<and> req_json e = Some b \<and> safeParse chatRequestSchema (Some b) \<noteq> Invalid \<longrightarrow>
     ((OPENROUTER_API_KEY e = None \<or> map_option trim (OPENROUTER_API_KEY e) = Some []) \<longrightarrow>
        POST e = (JsonResponse 500 (JObj [(''error'', JStr missingKeyMessage)]),
                  [AuthGetSession, ReqJson, SchemaSafeParse]))
     \<and> ((\<exists>k. OPENROUTER_API_KEY e = Some k \<and> trim k \<noteq> [] \<and>
             (\<not> startsWith (trim k) ''sk-or-v1-'' \<or> str_includes (trim k) ''your-key'')) \<longrightarrow>
        POST e = (JsonResponse 500 (JObj [(''error'', JStr invalidKeyMessage)]),
                  [AuthGetSession, ReqJson, SchemaSafeParse]))
     \<and> ((\<exists>k. OPENROUTER_API_KEY e = Some k \<and> trim k \<noteq> [] \<and>
             startsWith (trim k) ''sk-or-v1-'' \<and> \<not> str_includes (trim k) ''your-key'') \<longrightarrow>
        (\<forall>x. fst (POST e) \<noteq> JsonResponse 500 x)
        \<and> (\<forall>d mm. safeParse chatRequestSchema (Some b) = Valid d
               \<and> convertToModelMessages e (messagesOf d) = Inr mm \<longrightarrow>
             snd (POST e) = [AuthGetSession, ReqJson, SchemaSafeParse, ProviderStreamText]))"
proof (intro impI)
  assume a: "getSession e \<noteq> None \<and> req_json e = Some b \<and> safeParse chatRequestSchema (Some b) \<noteq> Invalid"
  then obtain s d where v: "getSession e = Some s" "req_json e = Some b" "safeParse chatRequestSchema (Some b) = Valid d"
    by (cases "safeParse chatRequestSchema (Some b)") auto
  note P = POST_valid[OF v]
  show "((OPENROUTER_API_KEY e = None \<or> map_option trim (OPENROUTER_API_KEY e) = Some []) \<longrightarrow>
        POST e = (JsonResponse 500 (JObj [(''error'', JStr missingKeyMessage)]),
                  [AuthGetSession, ReqJson, SchemaSafeParse]))
     \<and> ((\<exists>k. OPENROUTER_API_KEY e = Some k \<and> trim k \<noteq> [] \<and>
             (\<not> startsWith (trim k) ''sk-or-v1-'' \<or> str_includes (trim k) ''your-key'')) \<longrightarrow>
        POST e = (JsonResponse 500 (JObj [(''error'', JStr invalidKeyMessage)]),
                  [AuthGetSession, ReqJson, SchemaSafeParse]))
     \<and> ((\<exists>k. OPENROUTER_API_KEY e = Some k \<and> trim k \<noteq> [] \<and>
             startsWith (trim k) ''sk-or-v1-'' \<and> \<not> str_includes (trim k) ''your-key'') \<longrightarrow>
        (\<forall>x. fst (POST e) \<noteq> JsonResponse 500 x)
        \<and> (\<forall>d mm. safeParse chatRequestSchema (Some b) = Valid d
               \<and> convertToModelMessages e (messagesOf d) = Inr mm \<longrightarrow>
             snd (POST e) = [AuthGetSession, ReqJson, SchemaSafeParse, ProviderStreamText]))"
    unfolding P using v(3)
    by (auto simp: errorResponse_def split: sum.splits)
qed

theorem credential_checked_per_request_witness:
  "getSession (exampleEnv (Some ''alice'') (Some (encodeRequest [helloMessage])) (Some ''  '')) \<noteq> None
   \<and> safeParse chatRequestSchema (Some (encodeRequest [helloMessage])) \<noteq> Invalid
   \<and> map_option trim (OPENROUTER_API_KEY (exampleEnv (Some ''alice'') (Some (encodeRequest [helloMessage])) (Some ''  ''))) = Some []
   \<and> POST (exampleEnv (Some ''alice'') (Some (encodeRequest [helloMessage])) (Some ''  '')) =
     (JsonResponse 500 (JObj [(''error'', JStr missingKeyMessage)]), [AuthGetSession, ReqJson, SchemaSafeParse])
   \<and> snd (POST (exampleEnv (Some ''alice'') (Some (encodeRequest [helloMessage])) (Some ''sk-or-v1-abc''))) =
       [AuthGetSession, ReqJson, SchemaSafeParse, ProviderStreamText]"
  using credential_checked_per_request
          [of "exampleEnv (Some ''alice'') (Some (encodeRequest [helloMessage])) (Some ''  '')" "encodeRequest [helloMessage]"]
        credential_checked_per_request
          [of "exampleEnv (Some ''alice'') (Some (encodeRequest [helloMessage])) (Some ''sk-or-v1-abc'')" "encodeRequest [helloMessage]"]
        withinBounds_valid[OF helloMessage_within] helloMessage_messages
  by (simp add: exampleEnv_def trim_def isWhiteSpace_def startsWith_def)

section \<open>Properties of the Digital Twin context\<close>

lemma firstRow_take_filter:
  "firstRow (take (Suc 0) (filter P rows)) = find P rows"
  by (induction rows) (simp_all add: firstRow_def)

lemma assemble_unfold:
  "assemble stringify db cardId =
     (case find (\<lambda>c. card_id c = cardId) (cards db) of
        None \<Rightarrow>
          (Inl (TypeError undefinedBusinessName), db,
           [Db (Select Cards), Db (Select CardDigitalTwins), Db (Select Products), Db (Select Promotions)])
      | Some c \<Rightarrow>
          (Inr \<lparr> card = c,
                 twin = find (\<lambda>t. twin_cardId t = cardId) (cardDigitalTwins db),
                 businessProducts = filter (\<lambda>p. product_cardId p = cardId) (products db),
                 activeOffers = filter (\<lambda>p. promotion_cardId p = cardId) (promotions db),
                 systemPrompt =
                   buildSystemPrompt stringify c
                     (find (\<lambda>t. twin_cardId t = cardId) (cardDigitalTwins db))
                     (filter (\<lambda>p. product_cardId p = cardId) (products db))
                     (filter (\<lambda>p. promotion_cardId p = cardId) (promotions db)) \<rparr>,
           db,
           [Db (Select Cards), Db (Select CardDigitalTwins), Db (Select Products), Db (Select Promotions)]))"
  by (simp add: assemble_def db_select_def Let_def firstRow_take_filter split: option.splits)

text \<open>
  C9. Loading the context leaves the database as it was, for every database and card id,
  whether the card exists or not: the handler issues four \<open>select\<close> statements and
  nothing else against the persistence collaborator, in \<open>assemble\<close> and in the whole
  handler alike.
\<close>

theorem assemble_read_only:
  "fst (snd (assemble stringify db cardId)) = db
   \<and> (\<forall>x \<in> set (snd (snd (assemble stringify db cardId))). \<exists>t. x = Db (Select t))
   \<and> fst (snd (twinChatPOST stringify stream db messages cardId)) = db
   \<and> (\<forall>x \<in> set (snd (snd (twinChatPOST stringify stream db messages cardId))).
         x = StreamTextCall \<or> (\<exists>t. x = Db (Select t)))"
  by (simp add: twinChatPOST_def assemble_unfold split: option.splits)

theorem assemble_read_only_witness:
  "Db (Select Cards) \<in> set (snd (snd (assemble (\<lambda>j. []) coastalBites ''card-1'')))
   \<and> fst (snd (assemble (\<lambda>j. []) coastalBites ''card-1'')) = coastalBites
   \<and> fst (snd (twinChatPOST (\<lambda>j. []) (\<lambda>c m. []) coastalBites (JArr []) ''card-1'')) = coastalBites
   \<and> fst (snd (assemble (\<lambda>j. []) coastalBites ''card-2'')) = coastalBites"
  using assemble_read_only [of "\<lambda>j. []" coastalBites "''card-1''" "\<lambda>c m. []" "JArr []"]
        assemble_read_only [of "\<lambda>j. []" coastalBites "''card-2''" "\<lambda>c m. []" "JArr []"]
  by (simp add: assemble_unfold split: option.splits)

text \<open>
  C4 asks for a NotFound failure when the card id matches no row. The handler does not
  look at \<open>card\<close> before it reads \<open>card.businessName\<close>: for the id
  \<open>card-2\<close>, which the sample database does not hold, all four queries run and the
  request ends in a \<open>TypeError\<close>.
\<close>

theorem assemble_missing_card_throws:
  "find (\<lambda>c. card_id c = ''card-2'') (cards coastalBites) = None
   \<and> twinChatPOST (\<lambda>j. []) (\<lambda>c m. []) coastalBites (JArr []) ''card-2'' =
       (Inl (TypeError undefinedBusinessName), coastalBites,
        [Db (Select Cards), Db (Select CardDigitalTwins), Db (Select Products), Db (Select Promotions)])"
  by (simp add: twinChatPOST_def assemble_unfold coastalBites_def)

text \<open>The same for every database and id; and what is loaded when the card exists.\<close>

lemma assemble_missing:
  "find (\<lambda>c. card_id c = cardId) (cards db) = None \<Longrightarrow>
   fst (assemble stringify db cardId) =
     Inl (TypeError undefinedBusinessName)"
  by (simp add: assemble_unfold)

lemma assemble_existing:
  "find (\<lambda>c. card_id c = cardId) (cards db) = Some c \<Longrightarrow>
   \<exists>ctx. fst (assemble stringify db cardId) = Inr ctx
     \<and> card ctx = c
     \<and> twin ctx = find (\<lambda>t. twin_cardId t = cardId) (cardDigitalTwins db)
     \<and> businessProducts ctx = filter (\<lambda>p. product_cardId p = cardId) (products db)
     \<and> activeOffers ctx = filter (\<lambda>p. promotion_cardId p = cardId) (promotions db)
     \<and> snd (snd (twinChatPOST stringify stream db messages cardId)) =
         [Db (Select Cards), Db (Select CardDigitalTwins), Db (Select Products), Db (Select Promotions),
          StreamTextCall]"
  by (simp add: twinChatPOST_def assemble_unfold)

section \<open>Properties of the offer generator\<close>

lemma parse_shape_Some_iff:
  "parse_shape shape kvs \<noteq> None \<longleftrightarrow> (\<forall>(k, s) \<in> set shape. safeParse s (map_of kvs k) \<noteq> Invalid)"
  by (induction shape) (auto split: parsed.splits option.splits)

lemma parse_shape_keys:
  "parse_shape shape kvs = Some out \<Longrightarrow> fst ` set out \<subseteq> fst ` set shape"
proof (induction shape arbitrary: out)
  case Nil
  then show ?case by simp
next
  case (Cons a shape)
  obtain k s where a: "a = (k, s)" by (cases a)
  from Cons.prems a obtain r out' where
    r: "safeParse s (map_of kvs k) = Valid r" and o: "parse_shape shape kvs = Some out'"
    and out: "out = (case r of None \<Rightarrow> out' | Some y \<Rightarrow> (k, y) # out')"
    by (auto split: parsed.splits option.splits)
  from Cons.IH[OF o] show ?case
    unfolding out a by (cases r) auto
qed

lemma parse_shape_lookup:
  "parse_shape shape kvs = Some out \<Longrightarrow> distinct (map fst shape) \<Longrightarrow> (k, s) \<in> set shape \<Longrightarrow>
   safeParse s (map_of kvs k) = Valid (map_of out k)"
proof (induction shape arbitrary: out)
  case Nil
  then show ?case by simp
next
  case (Cons a shape)
  obtain k' s' where a: "a = (k', s')" by (cases a)
  from Cons.prems(1) a obtain r out' where
    r: "safeParse s' (map_of kvs k') = Valid r" and o: "parse_shape shape kvs = Some out'"
    and out: "out = (case r of None \<Rightarrow> out' | Some y \<Rightarrow> (k', y) # out')"
    by (auto split: parsed.splits option.splits)
  from Cons.prems(2) a have d: "k' \<notin> fst ` set shape" "distinct (map fst shape)" by auto
  have fresh: "map_of out' k' = None"
    using parse_shape_keys[OF o] d(1) by (auto simp: map_of_eq_None_iff)
  show ?case
  proof (cases "k = k'")
    case True
    with Cons.prems(3) a d(1) have "s = s'" by force
    with True r fresh show ?thesis unfolding out by (cases r) auto
  next
    case False
    with Cons.prems(3) a have "(k, s) \<in> set shape" by auto
    from Cons.IH[OF o d(2) this] False show ?thesis unfolding out by (cases r) auto
  qed
qed

lemma string_valid_iff: "safeParse (ZString None) v \<noteq> Invalid \<longleftrightarrow> isString v"
  by (auto simp: isString_def split: option.splits json.splits)

lemma number_valid_iff: "safeParse ZNumber v \<noteq> Invalid \<longleftrightarrow> isNumber v"
  by (auto simp: isNumber_def split: option.splits json.splits)

lemma optional_string_valid_iff:
  "safeParse (ZOptional (ZString None)) v \<noteq> Invalid \<longleftrightarrow> v = None \<or> isString v"
  by (auto simp: isString_def split: option.splits json.splits)

lemma parse_items_strings:
  "parse_items (ZString None) xs = (if list_all (\<lambda>x. isString (Some x)) xs then Some xs else None)"
proof (induction xs)
  case Nil
  then show ?case by simp
next
  case (Cons x xs)
  then show ?case by (cases x) (simp_all add: isString_def)
qed

lemma string_array_valid_iff:
  "safeParse (ZArray (ZString None) None) v \<noteq> Invalid \<longleftrightarrow> isStringArray v"
  by (simp add: isStringArray_def parse_items_strings split: option.splits json.splits)

lemma string_valid_out: "safeParse (ZString None) v = Valid w \<Longrightarrow> isString w"
  by (auto simp: isString_def split: option.splits json.splits)

lemma number_valid_out: "safeParse ZNumber v = Valid w \<Longrightarrow> isNumber w"
  by (auto simp: isNumber_def split: option.splits json.splits)

lemma optional_string_valid_out:
  "safeParse (ZOptional (ZString None)) v = Valid w \<Longrightarrow> w = None \<or> isString w"
  by (auto simp: isString_def split: option.splits json.splits)

lemma string_array_valid_out:
  "safeParse (ZArray (ZString None) None) v = Valid w \<Longrightarrow> isStringArray w"
  by (auto simp: isStringArray_def parse_items_strings split: option.splits json.splits if_splits)

lemma offer_valid_iff: "safeParse offerSchema (Some v) \<noteq> Invalid \<longleftrightarrow> conformsToOffer v"
proof (cases v)
  case (JObj kvs)
  have "safeParse offerSchema (Some (JObj kvs)) \<noteq> Invalid \<longleftrightarrow>
        parse_shape [(''title'', ZString None),
        (''description'', ZString None),
        (''discount'', ZNumber),
        (''conditions'', ZOptional (ZString None)),
        (''socialCaption'', ZString None),
        (''seoKeywords'', ZArray (ZString None) None),
        (''urgencyText'', ZString None)] kvs \<noteq> None"
    unfolding offerSchema_def by (simp split: option.splits)
  also have "\<dots> \<longleftrightarrow> conformsToOffer (JObj kvs)"
    unfolding parse_shape_Some_iff conformsToOffer_def
    by (simp add: string_valid_iff number_valid_iff optional_string_valid_iff string_array_valid_iff
        del: safeParse.simps)
  finally show ?thesis using JObj by simp
qed (simp_all add: offerSchema_def conformsToOffer_def)

lemma offer_valid_output:
  assumes "safeParse offerSchema (Some v) = Valid (Some d)"
  shows "conformsToOffer d"
proof -
  let ?shape = "[(''title'', ZString None),
        (''description'', ZString None),
        (''discount'', ZNumber),
        (''conditions'', ZOptional (ZString None)),
        (''socialCaption'', ZString None),
        (''seoKeywords'', ZArray (ZString None) None),
        (''urgencyText'', ZString None)]"
  from assms obtain kvs out where v: "v = JObj kvs" and p: "parse_shape ?shape kvs = Some out"
    and d: "d = JObj out"
    unfolding offerSchema_def by (cases v) (auto split: option.splits)
  have dist: "distinct (map fst ?shape)" by simp
  note L = parse_shape_lookup[OF p dist]
  have "isString (map_of out ''title'')" by (rule string_valid_out[OF L]) simp
  moreover have "isString (map_of out ''description'')" by (rule string_valid_out[OF L]) simp
  moreover have "isNumber (map_of out ''discount'')" by (rule number_valid_out[OF L]) simp
  moreover have "map_of out ''conditions'' = None \<or> isString (map_of out ''conditions'')"
    by (rule optional_string_valid_out[OF L]) simp
  moreover have "isString (map_of out ''socialCaption'')" by (rule string_valid_out[OF L]) simp
  moreover have "isStringArray (map_of out ''seoKeywords'')" by (rule string_array_valid_out[OF L]) simp
  moreover have "isString (map_of out ''urgencyText'')" by (rule string_valid_out[OF L]) simp
  ultimately show ?thesis unfolding d conformsToOffer_def by simp
qed

text \<open>
  C8. The offer generator answers 200 only with a value that conforms to the declared
  shape, obtained by parsing a provider output that conforms itself; and once the request
  is accepted, a provider output with a field missing or of the wrong type is answered
  with the 500 of the failed validation, never with an object.
\<close>

theorem structured_output_fails_closed:
  "(generateOfferPOST req_body gen = JsonResponse 200 v \<longrightarrow>
      conformsToOffer v
      \<and> (\<exists>obj. gen = GenObject obj \<and> conformsToOffer obj \<and> safeParse offerSchema (Some obj) = Valid (Some v)))
   \<and> (truthy (getProperty b ''businessName'') \<and> \<not> conformsToOffer obj \<longrightarrow>
        generateOfferPOST (Some b) (GenObject obj) =
          JsonResponse 500 (JObj [(''error'', JStr ''Generated content failed validation'')]))"
proof (intro conjI impI)
  assume ok: "generateOfferPOST req_body gen = JsonResponse 200 v"
  then obtain obj where g: "gen = GenObject obj" and p: "safeParse offerSchema (Some obj) = Valid (Some v)"
    by (auto simp: generateOfferPOST_def split: option.splits json.splits if_splits generated.splits parsed.splits)
  show "conformsToOffer v" using p by (rule offer_valid_output)
  from p have "conformsToOffer obj" using offer_valid_iff[of obj] by simp
  with g p show "\<exists>obj. gen = GenObject obj \<and> conformsToOffer obj \<and> safeParse offerSchema (Some obj) = Valid (Some v)"
    by blast
next
  assume a: "truthy (getProperty b ''businessName'') \<and> \<not> conformsToOffer obj"
  then have inv: "safeParse offerSchema (Some obj) = Invalid"
    using offer_valid_iff[of obj] by simp
  from a have "b \<noteq> JNull" by (auto simp: getProperty_def)
  with a inv show "generateOfferPOST (Some b) (GenObject obj) =
          JsonResponse 500 (JObj [(''error'', JStr ''Generated content failed validation'')])"
    by (cases b) (simp_all add: generateOfferPOST_def)
qed

lemma sampleOffer_parses:
  "safeParse offerSchema (Some sampleOffer) =
     Valid (Some (JObj [(''title'', JStr ''Taco Tuesday''), (''description'', JStr ''Two for one''),
           (''discount'', JNum 20), (''socialCaption'', JStr ''Tacos!''),
           (''seoKeywords'', JArr [JStr ''tacos'', JStr ''deal'']),
           (''urgencyText'', JStr ''Today only!'')]))"
  by (simp add: offerSchema_def sampleOffer_def)

theorem structured_output_fails_closed_witness:
  "generateOfferPOST (Some sampleOfferRequest) (GenObject sampleOffer) =
     JsonResponse 200 (JObj [(''title'', JStr ''Taco Tuesday''), (''description'', JStr ''Two for one''),
           (''discount'', JNum 20), (''socialCaption'', JStr ''Tacos!''),
           (''seoKeywords'', JArr [JStr ''tacos'', JStr ''deal'']),
           (''urgencyText'', JStr ''Today only!'')])
   \<and> conformsToOffer sampleOffer
   \<and> truthy (getProperty sampleOfferRequest ''businessName'')
   \<and> \<not> conformsToOffer sampleOfferWrongDiscount
   \<and> generateOfferPOST (Some sampleOfferRequest) (GenObject sampleOfferWrongDiscount) =
       JsonResponse 500 (JObj [(''error'', JStr ''Generated content failed validation'')])"
proof -
  have r: "generateOfferPOST (Some sampleOfferRequest) (GenObject sampleOffer) =
     JsonResponse 200 (JObj [(''title'', JStr ''Taco Tuesday''), (''description'', JStr ''Two for one''),
           (''discount'', JNum 20), (''socialCaption'', JStr ''Tacos!''),
           (''seoKeywords'', JArr [JStr ''tacos'', JStr ''deal'']),
           (''urgencyText'', JStr ''Today only!'')])"
    by (simp add: generateOfferPOST_def sampleOfferRequest_def getProperty_def sampleOffer_parses)
  have t: "truthy (getProperty sampleOfferRequest ''businessName'')"
    by (simp add: sampleOfferRequest_def getProperty_def)
  have n: "\<not> conformsToOffer sampleOfferWrongDiscount"
    by (simp add: conformsToOffer_def sampleOfferWrongDiscount_def isNumber_def)
  show ?thesis
    using structured_output_fails_closed
            [of "Some sampleOfferRequest" "GenObject sampleOffer" _ sampleOfferRequest sampleOfferWrongDiscount]
          r t n
    by auto
qed

section \<open>Properties of the turn orchestrator\<close>

declare run_turn.simps [simp del]

lemma run_turn_final: "isFinal (phase t) \<Longrightarrow> run_turn orch t = t"
  by (simp add: run_turn.simps)

lemma run_turn_step: "\<not> isFinal (phase t) \<Longrightarrow> run_turn orch t = run_turn orch (orchestrator_step orch t)"
  by (subst run_turn.simps) simp

lemma run_turn_invariant:
  assumes "P t"
    and "\<And>u. P u \<Longrightarrow> \<not> isFinal (phase u) \<Longrightarrow> P (orchestrator_step orch u)"
  shows "P (run_turn orch t) \<and> isFinal (phase (run_turn orch t))"
  using assms
proof (induction orch t rule: run_turn.induct)
  case (1 orch t)
  show ?case
  proof (cases "isFinal (phase t)")
    case True
    with "1.prems"(1) show ?thesis by (simp add: run_turn_final)
  next
    case False
    have "P (orchestrator_step orch t)"
      using "1.prems"(1) False by (rule "1.prems"(2))
    then have "P (run_turn orch (orchestrator_step orch t))
        \<and> isFinal (phase (run_turn orch (orchestrator_step orch t)))"
      using "1.prems"(2) by (rule "1.IH"[OF False])
    then show ?thesis by (simp add: run_turn_step[OF False])
  qed
qed

subsection \<open>Exactly one terminal event, at the end\<close>

lemma eventsWellFormed_step:
  assumes "eventsWellFormed t" and "\<not> isFinal (phase t)"
  shows "eventsWellFormed (orchestrator_step orch t)"
proof (cases "phase t")
  case Requesting
  with assms show ?thesis
    by (simp add: eventsWellFormed_def orchestrator_step_def Let_def)
next
  case (Streaming cs e)
  show ?thesis
  proof (cases cs)
    case Nil
    with assms Streaming show ?thesis
      by (cases e) (simp_all add: eventsWellFormed_def orchestrator_step_def)
  next
    case (Cons c cs')
    with assms Streaming show ?thesis
      by (simp add: eventsWellFormed_def orchestrator_step_def)
  qed
next
  case (ToolPending name rawInput)
  with assms show ?thesis
    by (simp add: eventsWellFormed_def orchestrator_step_def Let_def)
next
  case Completed
  with assms show ?thesis by simp
next
  case (Failed err)
  with assms show ?thesis by simp
qed

lemma one_terminal_at_end:
  assumes "evs \<noteq> []" and "isTerminal (last evs)" and "\<not> list_ex isTerminal (butlast evs)"
  shows "length (filter isTerminal evs) = 1"
proof -
  from assms(1) have "evs = butlast evs @ [last evs]" by simp
  then have "filter isTerminal evs = filter isTerminal (butlast evs) @ filter isTerminal [last evs]"
    by (metis filter_append)
  moreover from assms(3) have "filter isTerminal (butlast evs) = []"
    by (simp add: list_ex_iff filter_empty_conv)
  ultimately show ?thesis using assms(2) by simp
qed

text \<open>
  C2. Whatever the provider, the tools and the history are, the events of a turn are not
  empty, the last one is terminal (turn-complete or turn-error) and it is the only
  terminal one; a completed turn ends in turn-complete with the text assembled.
\<close>

theorem turn_ends_in_one_terminal_event:
  "emitted (run_turn orch (start_turn h)) \<noteq> []
   \<and> isTerminal (last (emitted (run_turn orch (start_turn h))))
   \<and> length (filter isTerminal (emitted (run_turn orch (start_turn h)))) = 1
   \<and> (phase (run_turn orch (start_turn h)) = Completed
        \<longrightarrow> last (emitted (run_turn orch (start_turn h))) = TurnComplete (answer (run_turn orch (start_turn h))))"
proof -
  let ?r = "run_turn orch (start_turn h)"
  have s: "eventsWellFormed (start_turn h)"
    by (simp add: eventsWellFormed_def start_turn_def)
  have "eventsWellFormed ?r \<and> isFinal (phase ?r)"
    using s by (rule run_turn_invariant) (rule eventsWellFormed_step)
  then have w: "emitted ?r \<noteq> []" "isTerminal (last (emitted ?r))" "\<not> list_ex isTerminal (butlast (emitted ?r))"
    by (simp_all add: eventsWellFormed_def)
  let ?Q = "\<lambda>t. phase t = Completed \<longrightarrow> emitted t \<noteq> [] \<and> last (emitted t) = TurnComplete (answer t)"
  have "?Q ?r \<and> isFinal (phase ?r)"
  proof (rule run_turn_invariant)
    show "?Q (start_turn h)" by (simp add: start_turn_def)
  next
    fix u :: turn
    assume "?Q u" "\<not> isFinal (phase u)"
    then show "?Q (orchestrator_step orch u)"
      by (cases "phase u")
         (auto simp: orchestrator_step_def Let_def split: list.splits response_end.splits)
  qed
  with w one_terminal_at_end[OF w] show ?thesis by simp
qed


subsection \<open>The step bound\<close>

lemma withinStepBound_step:
  assumes "withinStepBound orch t" and "\<not> isFinal (phase t)"
  shows "withinStepBound orch (orchestrator_step orch t)"
proof (cases "phase t")
  case Requesting
  with assms show ?thesis
    by (simp add: withinStepBound_def orchestrator_step_def Let_def inProgress_def isToolCallStarted_def)
next
  case (Streaming cs e)
  show ?thesis
  proof (cases cs)
    case Nil
    with assms Streaming show ?thesis
      by (cases e)
         (simp_all add: withinStepBound_def orchestrator_step_def inProgress_def isToolCallStarted_def)
  next
    case (Cons c cs')
    with assms Streaming show ?thesis
      by (simp add: withinStepBound_def orchestrator_step_def inProgress_def isToolCallStarted_def)
  qed
next
  case (ToolPending name rawInput)
  with assms show ?thesis
    by (simp add: withinStepBound_def orchestrator_step_def Let_def inProgress_def isToolCallStarted_def)
next
  case Completed
  with assms show ?thesis by simp
next
  case (Failed err)
  with assms show ?thesis by simp
qed

lemma stuckOnTools_step:
  assumes always: "\<And>sys h. requestsTool (ending (provider orch sys h))"
    and "stuckOnTools orch t" and "\<not> isFinal (phase t)"
  shows "stuckOnTools orch (orchestrator_step orch t)"
proof (cases "phase t")
  case Requesting
  with assms(2,3) always show ?thesis
    by (simp add: stuckOnTools_def orchestrator_step_def Let_def)
next
  case (Streaming cs e)
  show ?thesis
  proof (cases cs)
    case Nil
    with assms(2,3) Streaming show ?thesis
      by (cases e) (simp_all add: stuckOnTools_def orchestrator_step_def requestsTool_def)
  next
    case (Cons c cs')
    with assms(2,3) Streaming show ?thesis
      by (simp add: stuckOnTools_def orchestrator_step_def)
  qed
next
  case (ToolPending name rawInput)
  with assms(2,3) show ?thesis
    by (simp add: stuckOnTools_def orchestrator_step_def Let_def)
next
  case Completed
  with assms(3) show ?thesis by simp
next
  case (Failed err)
  with assms(3) show ?thesis by simp
qed

text \<open>
  C1. Every turn reaches a final state, having sent at most \<open>maxSteps\<close> requests to the
  provider and started at most \<open>maxSteps\<close> tool calls. Against a provider that asks for
  a tool in every response the turn fails with StepLimitExceeded, after exactly
  \<open>maxSteps\<close> requests, and turn-error is its last event.
\<close>

theorem tool_loop_is_bounded:
  "steps (run_turn orch (start_turn h)) \<le> maxSteps orch
   \<and> length (filter isToolCallStarted (emitted (run_turn orch (start_turn h)))) \<le> maxSteps orch
   \<and> isFinal (phase (run_turn orch (start_turn h)))
   \<and> ((\<forall>sys hist. requestsTool (ending (provider orch sys hist))) \<longrightarrow>
        phase (run_turn orch (start_turn h)) = Failed StepLimitExceeded
        \<and> last (emitted (run_turn orch (start_turn h))) = TurnError StepLimitExceeded
        \<and> steps (run_turn orch (start_turn h)) = maxSteps orch)"
proof -
  let ?r = "run_turn orch (start_turn h)"
  have "withinStepBound orch (start_turn h)"
    by (simp add: withinStepBound_def start_turn_def inProgress_def)
  then have b: "withinStepBound orch ?r \<and> isFinal (phase ?r)"
    by (rule run_turn_invariant) (rule withinStepBound_step)
  then have b1: "steps ?r \<le> maxSteps orch"
    and b2: "length (filter isToolCallStarted (emitted ?r)) \<le> maxSteps orch"
    and b3: "isFinal (phase ?r)"
    by (simp_all add: withinStepBound_def)
  have c: "phase ?r = Failed StepLimitExceeded
        \<and> last (emitted ?r) = TurnError StepLimitExceeded \<and> steps ?r = maxSteps orch"
    if always: "\<forall>sys hist. requestsTool (ending (provider orch sys hist))"
  proof -
    have "stuckOnTools orch (start_turn h)"
      by (simp add: stuckOnTools_def start_turn_def)
    then have "stuckOnTools orch ?r \<and> isFinal (phase ?r)"
      by (rule run_turn_invariant) (rule stuckOnTools_step, use always in simp)
    then show ?thesis
      using b1 by (cases "phase ?r") (simp_all add: stuckOnTools_def)
  qed
  from b1 b2 b3 c show ?thesis by blast
qed

theorem tool_loop_is_bounded_witness:
  "maxSteps alwaysCallsTool = 5
   \<and> (\<forall>sys hist. requestsTool (ending (provider alwaysCallsTool sys hist)))
   \<and> phase (run_turn alwaysCallsTool (start_turn [])) = Failed StepLimitExceeded
   \<and> steps (run_turn alwaysCallsTool (start_turn [])) = 5
   \<and> length (filter isToolCallStarted (emitted (run_turn alwaysCallsTool (start_turn [])))) \<le> 5"
  using tool_loop_is_bounded [of alwaysCallsTool "[]"]
  by (simp add: alwaysCallsTool_def requestsTool_def stepCount_def)

theorem turn_ends_in_one_terminal_event_witness:
  "phase (run_turn bookThenAnswer (start_turn [])) = Completed
   \<and> last (emitted (run_turn bookThenAnswer (start_turn []))) = TurnComplete '' One moment.Which date would you like?''
   \<and> length (filter isTerminal (emitted (run_turn bookThenAnswer (start_turn [])))) = 1"
proof -
  have r: "phase (run_turn bookThenAnswer (start_turn [])) = Completed
     \<and> answer (run_turn bookThenAnswer (start_turn [])) = '' One moment.Which date would you like?''"
    by (simp add: run_turn.simps orchestrator_step_def bookThenAnswer_def start_turn_def stepCount_def
        Let_def registry_execute_def resolve_def twinChatTools_def getOffers_def getProducts_def
        bookAppointment_def badBooking_def)
  show ?thesis
    using turn_ends_in_one_terminal_event [of bookThenAnswer "[]"] r by simp
qed

subsection \<open>A tool call with invalid input\<close>

text \<open>
  C7. A pending call of a known tool whose input fails the tool's input schema does not
  end the turn: the step emits tool-call-started and a tool-call-result that carries
  InvalidToolInput, appends the failed invocation to the history and goes back to
  Requesting; if the step bound allows, the next step sends the extended history to the
  provider and streams its response.
\<close>

theorem invalid_tool_input_continues:
  "phase t = ToolPending name rawInput
   \<and> resolve (registry orch) name = Inr decl
   \<and> safeParse (inputSchema decl) (Some rawInput) = Invalid \<longrightarrow>
     phase (orchestrator_step orch t) = Requesting
     \<and> \<not> isFinal (phase (orchestrator_step orch t))
     \<and> emitted (orchestrator_step orch t) =
         emitted t @ [ToolCallStarted name rawInput, ToolCallResult name (Inl InvalidToolInput)]
           @ (if buffered t = [] then [] else [TextDelta (buffered t)])
     \<and> history (orchestrator_step orch t) =
         history t @ [Message Assistant [ToolInvocationResult name rawInput (Inl InvalidToolInput)]]
     \<and> (steps t < maxSteps orch \<longrightarrow>
          phase (orchestrator_step orch (orchestrator_step orch t)) =
            Streaming
              (chunks (provider orch (systemPrompt (contextBundle orch)) (history (orchestrator_step orch t))))
              (ending (provider orch (systemPrompt (contextBundle orch)) (history (orchestrator_step orch t)))))"
  by (simp add: orchestrator_step_def registry_execute_def Let_def)

theorem invalid_tool_input_continues_witness:
  "resolve (registry bookThenAnswer) ''bookAppointment'' = Inr (bookAppointment sampleToString ''1700000000000'')
   \<and> safeParse (inputSchema (bookAppointment sampleToString ''1700000000000'')) (Some badBooking) = Invalid
   \<and> phase (orchestrator_step bookThenAnswer pendingBadBooking) = Requesting
   \<and> emitted (orchestrator_step bookThenAnswer pendingBadBooking) =
       [TextDelta ''Sure. '', ToolCallStarted ''bookAppointment'' badBooking,
        ToolCallResult ''bookAppointment'' (Inl InvalidToolInput)]
   \<and> phase (run_turn bookThenAnswer pendingBadBooking) = Completed"
proof -
  have r: "resolve (registry bookThenAnswer) ''bookAppointment'' = Inr (bookAppointment sampleToString ''1700000000000'')"
    by (simp add: resolve_def bookThenAnswer_def twinChatTools_def getOffers_def getProducts_def
        bookAppointment_def)
  have i: "safeParse (inputSchema (bookAppointment sampleToString ''1700000000000'')) (Some badBooking) = Invalid"
    by (simp add: bookAppointment_def badBooking_def)
  have p: "phase pendingBadBooking = ToolPending ''bookAppointment'' badBooking"
    by (simp add: pendingBadBooking_def)
  have c: "phase (run_turn bookThenAnswer pendingBadBooking) = Completed"
    by (simp add: run_turn.simps orchestrator_step_def bookThenAnswer_def pendingBadBooking_def stepCount_def
        Let_def registry_execute_def resolve_def twinChatTools_def getOffers_def getProducts_def
        bookAppointment_def badBooking_def)
  show ?thesis
    using invalid_tool_input_continues
            [of pendingBadBooking "''bookAppointment''" badBooking bookThenAnswer "bookAppointment sampleToString ''1700000000000''"]
          r i p c
    by (simp add: pendingBadBooking_def)
qed

end
